theory Spec2Isabelle
  imports Complex_Main "HOL-Library.Word" "HOL-Library.Code_Target_Nat"
begin

unbundle bit_operations_syntax

section \<open>Timestamp codec (MessageTransport.h, MessageTransport.cpp)\<close>

text \<open>
  \<^verbatim>\<open>typedef uint32_t tstamp32_t; typedef uint64_t tstamp64_t;\<close>
  The two fixed-point formats are plain unsigned machine words.
\<close>

type_synonym tstamp32_t = "32 word"
type_synonym tstamp64_t = "64 word"

text \<open>\<^verbatim>\<open>FRIC = 65536.\<close> and \<^verbatim>\<open>FRAC = 4294967296.\<close>; a \<^verbatim>\<open>double\<close> is read as a real
  number. Scaling by a power of two and converting a 16- or 32-bit integer are exact in
  IEEE double arithmetic, so the codec loses nothing by this reading.\<close>

definition FRIC :: real where
  "FRIC = 65536"

definition FRAC :: real where
  "FRAC = 4294967296"

text \<open>The source selects one of two bodies with
  \<^verbatim>\<open>#if __BYTE_ORDER__ == __ORDER_LITTLE_ENDIAN__\<close>. The ESP8266 the library is written
  for (it includes \<^verbatim>\<open>ESP8266WiFi.h\<close>) is little-endian.\<close>

datatype byte_order = LittleEndian | BigEndian

text \<open>Modelled from the spec: \<^verbatim>\<open>htons\<close>, \<open>ntohs\<close>, \<open>htonl\<close> and \<open>ntohl\<close> belong to the network
  stack, not to this repository. The specification has both subfields byte-swapped
  between host and network order; on a little-endian host that reverses the bytes of the
  argument. The source calls the four functions only in its little-endian bodies.\<close>

definition htons :: "16 word \<Rightarrow> 16 word" where
  "htons x = push_bit 8 (x AND 0xff) OR (drop_bit 8 x AND 0xff)"

definition ntohs :: "16 word \<Rightarrow> 16 word" where
  "ntohs x = htons x"

definition htonl :: "32 word \<Rightarrow> 32 word" where
  "htonl x = push_bit 24 (x AND 0xff) OR push_bit 8 (x AND 0xff00)
             OR (drop_bit 8 x AND 0xff00) OR (drop_bit 24 x AND 0xff)"

definition ntohl :: "32 word \<Rightarrow> 32 word" where
  "ntohl x = htonl x"

text \<open>Conversion of a \<^verbatim>\<open>double\<close> to an unsigned integer type, as in
  \<^verbatim>\<open>uint16_t raw = fric * FRIC;\<close>: the value is truncated towards zero. C++ defines the
  result only when the truncated value fits the target type; outside that range the
  model wraps, and no theorem below relies on it.\<close>

definition trunc_toward_zero :: "real \<Rightarrow> int" where
  "trunc_toward_zero x = (if 0 \<le> x then \<lfloor>x\<rfloor> else \<lceil>x\<rceil>)"

definition double_to_uint16 :: "real \<Rightarrow> 16 word" where
  "double_to_uint16 x = word_of_int (trunc_toward_zero x)"

definition double_to_uint32 :: "real \<Rightarrow> 32 word" where
  "double_to_uint32 x = word_of_int (trunc_toward_zero x)"

text \<open>\<^verbatim>\<open>double getFraction(const tstamp32_t &ts)\<close>\<close>

definition getFraction32 :: "byte_order \<Rightarrow> tstamp32_t \<Rightarrow> real" where
  "getFraction32 bo ts =
     (let fric :: 16 word =
            (case bo of
               LittleEndian \<Rightarrow> ntohs (ucast (drop_bit 16 ts AND 0xffff))
             | BigEndian \<Rightarrow> ucast (ts AND 0xffff))
      in real (unat fric) / FRIC)"

text \<open>\<^verbatim>\<open>double getFraction(const tstamp64_t &ts)\<close>\<close>

definition getFraction64 :: "byte_order \<Rightarrow> tstamp64_t \<Rightarrow> real" where
  "getFraction64 bo ts =
     (let fraction :: 32 word =
            (case bo of
               LittleEndian \<Rightarrow> ntohl (ucast (drop_bit 32 ts AND 0xffffffff))
             | BigEndian \<Rightarrow> ucast (ts AND 0xffffffff))
      in real (unat fraction) / FRAC)"

text \<open>\<^verbatim>\<open>uint16_t getSeconds(const tstamp32_t &ts)\<close>\<close>

definition getSeconds32 :: "byte_order \<Rightarrow> tstamp32_t \<Rightarrow> 16 word" where
  "getSeconds32 bo ts =
     (case bo of
        LittleEndian \<Rightarrow> ntohs (ucast (drop_bit 0 ts AND 0xffff))
      | BigEndian \<Rightarrow> ucast (ts AND 0xffff))"

text \<open>\<^verbatim>\<open>uint32_t getSeconds(const tstamp64_t &ts)\<close>\<close>

definition getSeconds64 :: "byte_order \<Rightarrow> tstamp64_t \<Rightarrow> 32 word" where
  "getSeconds64 bo ts =
     (case bo of
        LittleEndian \<Rightarrow> ntohl (ucast (drop_bit 0 ts AND 0xffffffff))
      | BigEndian \<Rightarrow> ucast (ts AND 0xffffffff))"

text \<open>\<^verbatim>\<open>void generateTstamp(tstamp32_t *dst, const uint16_t &secs, const double &fric)\<close>;
  the value stored through \<open>dst\<close> is the result.\<close>

definition generateTstamp32 :: "byte_order \<Rightarrow> 16 word \<Rightarrow> real \<Rightarrow> tstamp32_t" where
  "generateTstamp32 bo secs fric =
     (let raw = double_to_uint16 (fric * FRIC)
      in case bo of
           LittleEndian \<Rightarrow> ucast (htons secs) OR push_bit 16 (ucast (htons raw))
         | BigEndian \<Rightarrow> push_bit 16 (ucast secs) OR ucast raw)"

text \<open>\<^verbatim>\<open>void generateTstamp(tstamp64_t *dst, const uint32_t &secs, const double &frac)\<close>\<close>

definition generateTstamp64 :: "byte_order \<Rightarrow> 32 word \<Rightarrow> real \<Rightarrow> tstamp64_t" where
  "generateTstamp64 bo secs fraction =
     (let raw = double_to_uint32 (fraction * FRAC)
      in case bo of
           LittleEndian \<Rightarrow> ucast (htonl secs) OR push_bit 32 (ucast (htonl raw))
         | BigEndian \<Rightarrow> push_bit 32 (ucast secs) OR ucast raw)"


section \<open>Double-precision arithmetic\<close>

text \<open>The on-wire computation of \<^verbatim>\<open>NTPClient::time\<close> is done on \<^verbatim>\<open>double\<close> variables (IEEE 754
  binary64, every operation rounded to the nearest value, ties to the even significand;
  the ESP8266 computes it in software). A \<^verbatim>\<open>double\<close> is \<open>Some x\<close> for the finite value \<open>x\<close>
  and \<open>None\<close> for a value that is not finite (an infinity or NaN). The source adds,
  subtracts and multiplies doubles and divides them by non-zero constants; each of these
  operations gives a value that is not finite when an operand is not finite. Zero has
  no sign here.\<close>

type_synonym double = "real option"

text \<open>The number of binary digits of a positive integer.\<close>

function bit_length :: "int \<Rightarrow> nat" where
  "bit_length n = (if n \<le> 0 then 0 else Suc (bit_length (n div 2)))"
  by pat_completeness auto
termination
  by (relation "measure nat") auto

declare bit_length.simps [simp del]

text \<open>The binary exponent \<open>e\<close> of a positive real \<open>a\<close>: \<open>2 ^ e \<le> a < 2 ^ (e + 1)\<close>.\<close>

definition exponent_of :: "real \<Rightarrow> int" where
  "exponent_of a =
     (if 1 \<le> a then int (bit_length \<lfloor>a\<rfloor>) - 1
      else - int (bit_length (\<lceil>1 / a\<rceil> - 1)))"

text \<open>Rounding to the nearest integer, a tie to the even one.\<close>

definition round_half_even :: "real \<Rightarrow> int" where
  "round_half_even q =
     (let f = \<lfloor>q\<rfloor>; d = q - of_int f
      in if d < 1 / 2 then f
         else if 1 / 2 < d then f + 1
         else if even f then f else f + 1)"

text \<open>The double nearest to a real number: a significand of 53 bits, the exponent not
  below that of the subnormal numbers, and a result of magnitude \<open>2 ^ 1024\<close> or more is
  an infinity.\<close>

definition round_double :: "real \<Rightarrow> double" where
  "round_double x =
     (if x = 0 then Some 0
      else
        let e = max (exponent_of \<bar>x\<bar>) (- 1022);
            ulp = 2 powi (e - 52);
            y = of_int (round_half_even (x / ulp)) * ulp
        in if 2 powi 1024 \<le> \<bar>y\<bar> then None else Some y)"

text \<open>\<open>+\<close>, \<open>-\<close> and \<open>*\<close> on doubles, and \<open>/\<close> with a finite divisor.\<close>

definition dadd :: "double \<Rightarrow> double \<Rightarrow> double" where
  "dadd a b = (case (a, b) of (Some x, Some y) \<Rightarrow> round_double (x + y) | _ \<Rightarrow> None)"

definition dsub :: "double \<Rightarrow> double \<Rightarrow> double" where
  "dsub a b = (case (a, b) of (Some x, Some y) \<Rightarrow> round_double (x - y) | _ \<Rightarrow> None)"

definition dmul :: "double \<Rightarrow> double \<Rightarrow> double" where
  "dmul a b = (case (a, b) of (Some x, Some y) \<Rightarrow> round_double (x * y) | _ \<Rightarrow> None)"

definition ddiv :: "double \<Rightarrow> real \<Rightarrow> double" where
  "ddiv a y =
     (case a of Some x \<Rightarrow> if y = 0 then None else round_double (x / y) | None \<Rightarrow> None)"

text \<open>Conversion of an integer (\<^verbatim>\<open>uint32_t\<close>, \<^verbatim>\<open>unsigned long\<close>, \<^verbatim>\<open>time_t\<close>) to \<^verbatim>\<open>double\<close>.\<close>

definition double_of_int :: "int \<Rightarrow> double" where
  "double_of_int n = round_double (of_int n)"

text \<open>A double that is finite and at most \<open>2 ^ k\<close> in magnitude.\<close>

definition bounded_by :: "nat \<Rightarrow> double \<Rightarrow> bool" where
  "bounded_by k a = (case a of None \<Rightarrow> False | Some x \<Rightarrow> \<bar>x\<bar> \<le> 2 ^ k)"

section \<open>Packet, error codes and the outside world\<close>

text \<open>\<^verbatim>\<open>struct ntp_packet\<close> of MessageTransport.h. The fields are held as the host reads
  them from the struct; \<open>ppoll\<close> and \<open>precision\<close> are \<^verbatim>\<open>int8_t\<close> (read with \<open>sint\<close>).
  The struct has no padding: 1+1+1+1+4+4+4+8+8+8+8 = 48 bytes.\<close>

record ntp_packet =
  li_vn_mode :: "8 word"
  stratum :: "8 word"
  ppoll :: "8 word"
  precision :: "8 word"
  rootdelay :: tstamp32_t
  rootdisp :: tstamp32_t
  refid :: "32 word"
  reftime :: tstamp64_t
  org :: tstamp64_t
  rec :: tstamp64_t
  xmt :: tstamp64_t

definition sizeof_ntp_packet :: nat where
  "sizeof_ntp_packet = 48"

text \<open>\<^verbatim>\<open>memset(packet, 0, sizeof(NTPMessageTransport::ntp_packet))\<close> leaves this value.\<close>

definition zeroed_packet :: ntp_packet where
  "zeroed_packet =
     \<lparr>li_vn_mode = 0, stratum = 0, ppoll = 0, precision = 0, rootdelay = 0, rootdisp = 0,
      refid = 0, reftime = 0, org = 0, rec = 0, xmt = 0\<rparr>"

text \<open>The values the library assigns to the global \<^verbatim>\<open>errno\<close>. The specification names
  them: \<open>EINVAL\<close> InvalidArgument, \<open>ENETDOWN\<close> NetworkUnavailable, \<open>EADDRNOTAVAIL\<close>
  AddressUnavailable, \<open>EOVERFLOW\<close> Overflow, \<open>EIO\<close> IoError, \<open>EOPNOTSUPP\<close>
  UnsupportedOperation, \<open>ENODATA\<close> NoDataAvailable, \<open>EPFNOSUPPORT\<close>
  UnsupportedProtocolFamily, \<open>EAGAIN\<close> TemporarilyUnavailable, \<open>EBADMSG\<close> BadMessage.
  \<open>EPROTONOSUPPORT\<close> is assigned in two places: by the transport for a missing or short
  datagram (ProtocolMismatch) and by the engine for a wrong version (UnsupportedProtocol).\<close>

datatype errno_code =
  EINVAL | ENETDOWN | EISCONN | EADDRNOTAVAIL | EOVERFLOW | EIO | EPROTONOSUPPORT
  | EOPNOTSUPP | ENODATA | EPFNOSUPPORT | EAGAIN | EBADMSG

text \<open>What is printed on \<^verbatim>\<open>Serial\<close>, one item for each \<^verbatim>\<open>print\<close> or \<^verbatim>\<open>println\<close>: a text, a
  \<^verbatim>\<open>double\<close> or an \<^verbatim>\<open>unsigned long\<close> (kept as the value, not as its decimal rendering),
  or \<^verbatim>\<open>strerror(errno)\<close>.\<close>

datatype log_item =
  Text string | Number double | Unsigned nat | ErrorText "errno_code option"

text \<open>The answers of the collaborators that are not part of the repository: the WiFi
  status, the \<^verbatim>\<open>WiFiUDP\<close> object \<^verbatim>\<open>_datagram\<close> and the millisecond clock. \<open>parsePacket k\<close> is
  what the \<open>k\<close>-th call of \<^verbatim>\<open>_datagram.parsePacket()\<close> returns and \<open>millis k\<close> what the
  \<open>k\<close>-th call of \<^verbatim>\<open>millis()\<close> returns (counted from 0). \<open>udp_read buf\<close> is the result of
  \<^verbatim>\<open>_datagram.read((char *)buf, 48)\<close>: the count it returns and the buffer it leaves.\<close>

record net_env =
  wifi_connected :: bool
  begin_ok :: bool
  beginPacket_ok :: bool
  write_count :: nat
  endPacket_ok :: bool
  parsePacket :: "nat \<Rightarrow> int"
  udp_read :: "ntp_packet \<Rightarrow> int \<times> ntp_packet"
  millis :: "nat \<Rightarrow> 32 word"

text \<open>The mutable state the code acts on: the global \<^verbatim>\<open>errno\<close> (\<open>None\<close> while this
  library has not assigned it), the port \<^verbatim>\<open>_datagram.localPort()\<close> reports, and a record
  of every call that reaches the outside.\<close>

record world =
  errno :: "errno_code option"
  local_port :: "16 word"
  written :: "ntp_packet list"
  packets_ended :: nat
  polls :: nat
  delay_ms :: nat
  reads :: nat
  flushes :: nat
  millis_calls :: nat
  serial :: "log_item list"

definition NTP_SERVER_PORT :: "16 word" where
  "NTP_SERVER_PORT = 123"

definition UDP_LOCAL_PORT :: "16 word" where
  "UDP_LOCAL_PORT = 8123"

text \<open>A function that returns \<^verbatim>\<open>false\<close> has assigned \<^verbatim>\<open>errno\<close> just before.\<close>

definition fail_with :: "errno_code \<Rightarrow> world \<Rightarrow> world" where
  "fail_with e w = w\<lparr>errno := Some e\<rparr>"

definition serial_print :: "log_item list \<Rightarrow> world \<Rightarrow> world" where
  "serial_print items w = w\<lparr>serial := serial w @ items\<rparr>"

section \<open>Kiss codes (\<^verbatim>\<open>NTPMessageTransport::printKissCode\<close>)\<close>

text \<open>\<^verbatim>\<open>printKissCode\<close> receives a \<^verbatim>\<open>const char *\<close> and reads through it with \<^verbatim>\<open>strcmp\<close>
  and \<^verbatim>\<open>strncpy\<close>. Memory is a partial map from 32-bit addresses (the pointers of the
  ESP8266) to bytes; an address outside its domain cannot be loaded from, and a load from
  it ends the program (result \<open>None\<close>).\<close>

type_synonym memory = "32 word \<Rightarrow> char option"

definition NUL :: char where
  "NUL = CHR 0x00"

definition kod_table :: "(string \<times> string) list" where
  "kod_table =
    [(''ACST'', ''The association belongs to a anycast server.''),
     (''AUTH'', ''Server authentication failed.''),
     (''AUTO'', ''Autokey sequence failed.''),
     (''BCST'', ''The association belongs to a broadcast server.''),
     (''CRYP'', ''Cryptographic authentication or identification failed.''),
     (''DENY'', ''Access denied by remote server.''),
     (''DROP'', ''Lost peer in symmetric mode.''),
     (''RSTR'', ''Access denied due to local policy.''),
     (''INIT'', ''The association has not yet synchronized for the first time.''),
     (''MCST'', ''The association belongs to a manycast server.''),
     (''NKEY'', ''No key found.  Either the key was never installed or is not trusted.''),
     (''RATE'', ''Rate exceeded.  The server has temporarily denied access because the client exceeded the rate threshold.''),
     (''RMOT'', ''Somebody is tinkering with the association from a remote host running ntpdc.  Not to worry unless some rascal has stolen your keys.''),
     (''STEP'', ''A step change in system time has occurred, but the association has not yet resynchronized.'')]"

text \<open>\<^verbatim>\<open>strcmp(code, entry) == 0\<close>, where \<open>entry\<close> is a character array whose terminating
  NUL is the end of the list: the bytes at \<open>p\<close>, \<open>p + 1\<close>, ... are compared with the entry
  up to the first difference or the terminator. Equality needs the byte after the last
  character of the entry to be NUL.\<close>

fun strcmp_eq :: "memory \<Rightarrow> 32 word \<Rightarrow> string \<Rightarrow> bool option" where
  "strcmp_eq mem p [] =
     (case mem p of None \<Rightarrow> None | Some b \<Rightarrow> Some (b = NUL))"
| "strcmp_eq mem p (c # cs) =
     (case mem p of
        None \<Rightarrow> None
      | Some b \<Rightarrow>
          if b \<noteq> c then Some False
          else if c = NUL then Some True
          else strcmp_eq mem (p + 1) cs)"

text \<open>The \<^verbatim>\<open>for\<close> loop over the table, left at the first entry that compares equal.\<close>

fun find_code :: "memory \<Rightarrow> 32 word \<Rightarrow> (string \<times> string) list
                    \<Rightarrow> (string \<times> string) option option" where
  "find_code mem p [] = Some None"
| "find_code mem p (e # es) =
     (case strcmp_eq mem p (fst e) of
        None \<Rightarrow> None
      | Some True \<Rightarrow> Some (Some e)
      | Some False \<Rightarrow> find_code mem p es)"

text \<open>\<^verbatim>\<open>strncpy(dst, src, n)\<close>: the \<open>n\<close> bytes stored at \<open>dst\<close>; reading stops after a NUL and
  the rest is filled with NUL.\<close>

fun strncpy :: "memory \<Rightarrow> 32 word \<Rightarrow> nat \<Rightarrow> string option" where
  "strncpy mem p 0 = Some []"
| "strncpy mem p (Suc n) =
     (case mem p of
        None \<Rightarrow> None
      | Some b \<Rightarrow>
          if b = NUL then Some (replicate (Suc n) NUL)
          else map_option ((#) b) (strncpy mem (p + 1) n))"

text \<open>What \<^verbatim>\<open>Serial.println\<close> shows of a character array: the characters before the first
  NUL.\<close>

definition c_string :: "string \<Rightarrow> string" where
  "c_string cs = takeWhile (\<lambda>c. c \<noteq> NUL) cs"

definition kod_banner :: string where
  "kod_banner =
     ''Your SNTP client has received a Kiss-o'-Death (KoD) packet from its server.''"

definition kod_unknown_banner :: string where
  "kod_unknown_banner =
     ''Your SNTP client has received a Kiss-o'-Death (KoD) packet from its server, but the code is unknown.''"

text \<open>\<^verbatim>\<open>bool printKissCode(const char *code)\<close>: the returned flag and the items printed,
  or \<open>None\<close> when a load through \<open>code\<close> faults.\<close>

definition printKissCode :: "memory \<Rightarrow> 32 word \<Rightarrow> (bool \<times> log_item list) option" where
  "printKissCode mem code =
     (case find_code mem code kod_table of
        None \<Rightarrow> None
      | Some (Some (c, msg)) \<Rightarrow>
          Some (True,
                [Text kod_banner, Text ''-- Code: '', Text c, Text ''-- Message: '', Text msg])
      | Some None \<Rightarrow>
          (case strncpy mem code 4 of
             None \<Rightarrow> None
           | Some code_s \<Rightarrow>
               Some (False,
                     [Text kod_unknown_banner, Text ''-- Unknown code: '',
                      Text (c_string (code_s @ [NUL]))])))"


section \<open>Message transport (MessageTransport.cpp)\<close>

text \<open>Each function returns the \<^verbatim>\<open>bool\<close> of the source together with the state it
  leaves. A pointer to a packet is \<open>None\<close> for \<^verbatim>\<open>nullptr\<close> and \<open>Some p\<close> when it points to a
  packet holding \<open>p\<close>; the packet that the pointer refers to after the call is returned
  with the result.\<close>

text \<open>\<^verbatim>\<open>bool NTPMessageTransport::net_provider()\<close>\<close>

definition net_provider :: "net_env \<Rightarrow> world \<Rightarrow> bool \<times> world" where
  "net_provider env w =
     (if \<not> wifi_connected env then (False, fail_with ENETDOWN w)
      else if local_port w = UDP_LOCAL_PORT then (True, w)
      else if local_port w = 0 \<and> begin_ok env then (True, w\<lparr>local_port := UDP_LOCAL_PORT\<rparr>)
      else (False, fail_with EISCONN w))"

text \<open>\<^verbatim>\<open>bool NTPMessageTransport::send_server_request(struct ntp_packet *ntp_request)\<close>\<close>

definition send_server_request :: "net_env \<Rightarrow> ntp_packet option \<Rightarrow> world \<Rightarrow> bool \<times> world" where
  "send_server_request env ntp_request w =
     (case ntp_request of
        None \<Rightarrow> (False, fail_with EINVAL w)
      | Some p \<Rightarrow>
          if \<not> beginPacket_ok env then (False, fail_with EADDRNOTAVAIL w)
          else
            let w1 = w\<lparr>written := written w @ [p]\<rparr>
            in if write_count env \<noteq> sizeof_ntp_packet then (False, fail_with EOVERFLOW w1)
               else if \<not> endPacket_ok env then (False, fail_with EIO w1)
               else (True, w1\<lparr>packets_ended := Suc (packets_ended w1)\<rparr>))"

text \<open>The polling loop of \<^verbatim>\<open>receive_server_reply\<close>:
  \<^verbatim>\<open>do { rply_size = _datagram.parsePacket(); if (rply_size != 0) break; delay(1UL); }
  while (++ms_cycles < timeout);\<close>
  with \<^verbatim>\<open>unsigned long\<close> counters (32 bits on the ESP8266). The result is the last
  \<open>rply_size\<close>.\<close>

function poll_loop :: "net_env \<Rightarrow> 32 word \<Rightarrow> 32 word \<Rightarrow> world \<Rightarrow> int \<times> world" where
  "poll_loop env timeout ms_cycles w =
     (let rply_size = parsePacket env (polls w);
          w1 = w\<lparr>polls := Suc (polls w)\<rparr>
      in if rply_size \<noteq> 0 then (rply_size, w1)
         else
           let w2 = w1\<lparr>delay_ms := delay_ms w1 + 1\<rparr>
           in if ms_cycles + 1 < timeout then poll_loop env timeout (ms_cycles + 1) w2
              else (rply_size, w2))"
  by pat_completeness auto

termination poll_loop
proof (relation "measure (\<lambda>(env, timeout, ms_cycles, w). unat (timeout - (ms_cycles + 1)))")
  show "wf (measure (\<lambda>(env, timeout, ms_cycles, w). unat (timeout - (ms_cycles + 1))))"
    by simp
next
  fix env :: net_env and timeout ms_cycles :: "32 word" and w xb :: world
  assume running: "ms_cycles + 1 < timeout"
  define d where "d = timeout - (ms_cycles + 1)"
  have "d \<noteq> 0"
    using running by (auto simp add: d_def)
  then have "unat (d - 1) = unat d - 1" and "0 < unat d"
    by (simp_all add: unat_minus_one unat_gt_0)
  then have "unat (d - 1) < unat d"
    by simp
  moreover have "timeout - (ms_cycles + 1 + 1) = d - 1"
    by (simp only: d_def diff_diff_eq)
  ultimately show "((env, timeout, ms_cycles + 1, xb), (env, timeout, ms_cycles, w))
        \<in> measure (\<lambda>(env, timeout, ms_cycles, w). unat (timeout - (ms_cycles + 1)))"
    by (simp only: in_measure prod.case d_def)
qed

declare poll_loop.simps [simp del]

text \<open>\<^verbatim>\<open>bool NTPMessageTransport::receive_server_reply(struct ntp_packet *ntp_reply,
  unsigned long timeout)\<close>. \<open>rply_size\<close> is an \<^verbatim>\<open>int\<close>, compared with
  \<^verbatim>\<open>(int)sizeof(struct ntp_packet)\<close>.\<close>

definition receive_server_reply ::
  "net_env \<Rightarrow> ntp_packet option \<Rightarrow> 32 word \<Rightarrow> world \<Rightarrow> bool \<times> ntp_packet option \<times> world" where
  "receive_server_reply env ntp_reply timeout w =
     (case ntp_reply of
        None \<Rightarrow> (False, None, fail_with EINVAL w)
      | Some buf \<Rightarrow>
          if timeout = 0 then (False, Some buf, fail_with EINVAL w)
          else
            let (rply_size, w1) = poll_loop env timeout 0 w
            in if rply_size < int sizeof_ntp_packet
               then (False, Some buf, fail_with EPROTONOSUPPORT w1)
               else
                 let (n, buf') = udp_read env buf;
                     w2 = w1\<lparr>reads := Suc (reads w1)\<rparr>
                 in if n \<noteq> int sizeof_ntp_packet
                    then (False, Some buf', fail_with EOVERFLOW w2)
                    else (True, Some buf', w2\<lparr>flushes := Suc (flushes w2)\<rparr>))"

text \<open>\<^verbatim>\<open>bool NTPMessageTransport::packetExchange(struct ntp_packet *packet,
  unsigned long timeout)\<close>\<close>

definition packetExchange ::
  "net_env \<Rightarrow> ntp_packet option \<Rightarrow> 32 word \<Rightarrow> world \<Rightarrow> bool \<times> ntp_packet option \<times> world" where
  "packetExchange env packet timeout w =
     (if packet = None \<or> timeout = 0 then (False, packet, fail_with EINVAL w)
      else
        let (ok1, w1) = net_provider env w
        in if \<not> ok1 then (False, packet, w1)
           else
             let (ok2, w2) = send_server_request env packet w1
             in if \<not> ok2 then (False, packet, w2)
                else
                  let (ok3, packet', w3) = receive_server_reply env packet timeout w2
                  in if \<not> ok3 then (False, packet', w3)
                     else (True, packet', w3))"

section \<open>On-wire protocol engine (ntpclient.cpp)\<close>

definition ERA_OFFSET0_1_JAN_1970 :: int where
  "ERA_OFFSET0_1_JAN_1970 = 2208988800"

text \<open>The constants of \<^verbatim>\<open>on_wire_exchange\<close>, written there as binary literals.\<close>

definition LEAP_NO_WARNING :: "8 word" where "LEAP_NO_WARNING = 0x00"
definition NTP_VERSION_4 :: "8 word" where "NTP_VERSION_4 = 0x20"
definition MODE_CLIENT :: "8 word" where "MODE_CLIENT = 0x03"
definition TIMEOUT :: "32 word" where "TIMEOUT = 1024"
definition MODE_MASK :: "8 word" where "MODE_MASK = 0x07"
definition MODE_SERVER :: "8 word" where "MODE_SERVER = 0x04"
definition PROTOCOL_MASK :: "8 word" where "PROTOCOL_MASK = 0x38"
definition LEAP_MASK :: "8 word" where "LEAP_MASK = 0xC0"
definition LEAP_ALARM_CONDITION :: "8 word" where "LEAP_ALARM_CONDITION = 0xC0"

text \<open>The request that \<^verbatim>\<open>on_wire_exchange\<close> assembles in the caller's packet:
  \<^verbatim>\<open>xmt_bak = packet->xmt; memset(packet, 0, sizeof(ntp_packet));
  packet->li_vn_mode = LEAP_NO_WARNING | NTP_VERSION_4 | MODE_CLIENT; packet->xmt = xmt_bak;\<close>\<close>

definition assemble_request :: "ntp_packet \<Rightarrow> ntp_packet" where
  "assemble_request packet =
     (let xmt_bak = xmt packet;
          p1 = zeroed_packet;
          p2 = p1\<lparr>li_vn_mode := LEAP_NO_WARNING OR NTP_VERSION_4 OR MODE_CLIENT\<rparr>
      in p2\<lparr>xmt := xmt_bak\<rparr>)"

text \<open>The checks that \<^verbatim>\<open>on_wire_exchange\<close> makes on the reply, in the order of the
  source. The stratum-0 branch calls
  \<^verbatim>\<open>NTPMessageTransport::printKissCode((const char *)packet->refid)\<close>: the cast turns the
  \<^emph>\<open>value\<close> of the 32-bit field \<open>refid\<close> into the address that \<^verbatim>\<open>printKissCode\<close> reads from
  (the source does not take the address of the field). The result is \<open>None\<close> when that
  read faults and the function does not return.\<close>

definition check_reply ::
  "memory \<Rightarrow> tstamp64_t \<Rightarrow> ntp_packet \<Rightarrow> world \<Rightarrow> (bool \<times> world) option" where
  "check_reply mem xmt_bak packet w =
     (if li_vn_mode packet AND MODE_MASK \<noteq> MODE_SERVER then Some (False, fail_with EOPNOTSUPP w)
      else if li_vn_mode packet AND PROTOCOL_MASK \<noteq> NTP_VERSION_4
        then Some (False, fail_with EPROTONOSUPPORT w)
      else if li_vn_mode packet AND LEAP_MASK = LEAP_ALARM_CONDITION
        then Some (False, fail_with ENODATA w)
      else if stratum packet > 15 then Some (False, fail_with EPFNOSUPPORT w)
      else if stratum packet = 0 then
        (case printKissCode mem (refid packet) of
           None \<Rightarrow> None
         | Some (valid_code, out) \<Rightarrow> Some (False, fail_with EAGAIN (serial_print out w)))
      else if xmt_bak \<noteq> org packet then Some (False, fail_with EBADMSG w)
      else Some (True, w))"

text \<open>\<^verbatim>\<open>bool NTPClient::on_wire_exchange(NTPMessageTransport::ntp_packet *packet)\<close>. The
  result is \<open>None\<close> when the function does not return. After a successful
  \<^verbatim>\<open>packetExchange\<close> the checks read through \<open>packet\<close>, which is the non-null pointer the
  function was given.\<close>

definition on_wire_exchange ::
  "net_env \<Rightarrow> memory \<Rightarrow> ntp_packet option \<Rightarrow> world
     \<Rightarrow> (bool \<times> ntp_packet option \<times> world) option" where
  "on_wire_exchange env mem packet w =
     (case packet of
        None \<Rightarrow> Some (False, None, fail_with EINVAL w)
      | Some p \<Rightarrow>
          let xmt_bak = xmt p;
              request = assemble_request p;
              (ok, packet', w1) = packetExchange env (Some request) TIMEOUT w
          in if \<not> ok then Some (False, packet', w1)
             else
               (case packet' of
                  None \<Rightarrow> None
                | Some reply \<Rightarrow>
                    map_option (\<lambda>(r, w2). (r, Some reply, w2))
                      (check_reply mem xmt_bak reply w1)))"

text \<open>\<^verbatim>\<open>void NTPClient::lastErrorString(String *error)\<close>, called with its default
  argument \<^verbatim>\<open>nullptr\<close>: the message goes to \<^verbatim>\<open>Serial\<close>.\<close>

definition lastErrorString :: "world \<Rightarrow> world" where
  "lastErrorString w =
     serial_print [Text [CHR 0x0A], Text ''Last error: '', ErrorText (errno w)] w"

text \<open>One call of \<^verbatim>\<open>millis()\<close>.\<close>

definition read_millis :: "net_env \<Rightarrow> world \<Rightarrow> 32 word \<times> world" where
  "read_millis env w = (millis env (millis_calls w), w\<lparr>millis_calls := Suc (millis_calls w)\<rparr>)"

text \<open>The two expressions of the on-wire algorithm in \<^verbatim>\<open>NTPClient::time\<close>:
  \<^verbatim>\<open>double roundtrip_delay = (t4d - t1d) - (t3d - t2d);\<close> and
  \<^verbatim>\<open>double clock_offset = ((t2d - t1d) + (t3d - t4d)) / 2.0;\<close>, each operation rounded.\<close>

definition roundtrip_delay :: "double \<Rightarrow> double \<Rightarrow> double \<Rightarrow> double \<Rightarrow> double" where
  "roundtrip_delay t1d t2d t3d t4d = dsub (dsub t4d t1d) (dsub t3d t2d)"

definition clock_offset :: "double \<Rightarrow> double \<Rightarrow> double \<Rightarrow> double \<Rightarrow> double" where
  "clock_offset t1d t2d t3d t4d = ddiv (dadd (dsub t2d t1d) (dsub t3d t4d)) 2"

text \<open>\<^verbatim>\<open>time_t NTPClient::time(time_t *tloc)\<close>. \<^verbatim>\<open>time_t\<close> is a 64-bit integer here (the
  source writes \<^verbatim>\<open>2208988800LL\<close> and \<^verbatim>\<open>(time_t)-1LL\<close>) and is modelled as \<open>int\<close>. \<open>tloc\<close> is
  \<open>None\<close> for \<^verbatim>\<open>nullptr\<close> and \<open>Some v\<close> for a pointer to an object holding \<open>v\<close>; the object
  after the call is returned with the result. \<open>uninit\<close> is the content of the local
  \<^verbatim>\<open>ntp_packet\<close> before its field \<open>xmt\<close> is assigned. The value of \<open>getFraction\<close> is a double
  as it stands (a 32-bit integer over \<open>2 ^ 32\<close>). \<^verbatim>\<open>modf\<close> splits a finite double into the
  part truncated towards zero and the rest, both without rounding. The conversions of
  \<open>unix_time_d_intpart\<close> to \<^verbatim>\<open>time_t\<close> and of the delay to \<^verbatim>\<open>uint_least32_t\<close> are undefined
  for a value that is not finite. The result is \<open>None\<close> when the function does not
  return or its behaviour is undefined.\<close>

definition time ::
  "byte_order \<Rightarrow> net_env \<Rightarrow> memory \<Rightarrow> ntp_packet \<Rightarrow> int option \<Rightarrow> world
     \<Rightarrow> (int \<times> int option \<times> world) option" where
  "time bo env mem uninit tloc w =
     (let ntp_time = ERA_OFFSET0_1_JAN_1970 + 1637244065;
          t1 = generateTstamp64 bo (word_of_int ntp_time) 0;
          ntp_packet = uninit\<lparr>xmt := t1\<rparr>;
          (millis_start, w1) = read_millis env w
      in case on_wire_exchange env mem (Some ntp_packet) w1 of
           None \<Rightarrow> None
         | Some (ok, packet', w2) \<Rightarrow>
             if \<not> ok then Some (- 1, tloc, lastErrorString w2)
             else
               (case packet' of
                  None \<Rightarrow> None
                | Some reply \<Rightarrow>
                    let (now1, w3) = read_millis env w2;
                        millis_delta = now1 - millis_start;
                        (millis_start', w4) = read_millis env w3;
                        t2 = rec reply;
                        t3 = xmt reply;
                        t1d = dadd (double_of_int (uint (getSeconds64 bo t1))) (Some 0);
                        t4d = dadd t1d (ddiv (double_of_int (uint millis_delta)) 1000);
                        t2d = dadd (double_of_int (uint (getSeconds64 bo t2)))
                                (Some (getFraction64 bo t2));
                        t3d = dadd (double_of_int (uint (getSeconds64 bo t3)))
                                (Some (getFraction64 bo t3));
                        delay = roundtrip_delay t1d t2d t3d t4d;
                        offset = clock_offset t1d t2d t3d t4d;
                        w5 = serial_print
                               [Text ''--> T1: '', Number t1d, Text ''--> T2: '', Number t2d,
                                Text ''--> T3: '', Number t3d, Text ''--> T4: '', Number t4d,
                                Text ''--> Clock offset: '', Number offset,
                                Text ''--> Round-trip delay: '', Number delay, Text '' ms''] w4;
                        (now2, w6) = read_millis env w5;
                        unix_time_d =
                          dadd (dsub (dadd (dadd (Some 1) offset) (double_of_int ntp_time))
                                  (double_of_int ERA_OFFSET0_1_JAN_1970))
                            (ddiv (double_of_int (uint (now2 - millis_start'))) 1000);
                        w7 = serial_print [Text ''--> unix_time_d: '', Number unix_time_d] w6
                    in case unix_time_d of
                         None \<Rightarrow> None
                       | Some u \<Rightarrow>
                           let unix_time_d_intpart = trunc_toward_zero u;
                               fraction = u - of_int unix_time_d_intpart
                           in case dsub (Some 1000) (dmul (Some fraction) (Some 1000)) of
                                None \<Rightarrow> None
                              | Some remaining \<Rightarrow>
                                  let sync_ms_delay = double_to_uint32 remaining;
                                      (now3, w8) = read_millis env w7;
                                      w9 = serial_print
                                             [Text ''--> delta time: '',
                                              Unsigned (unat (now3 - millis_start')),
                                              Text '' ms''] w8;
                                      w10 = w9\<lparr>delay_ms := delay_ms w9 + unat sync_ms_delay\<rparr>;
                                      unix_time = unix_time_d_intpart
                                  in Some (unix_time, map_option (\<lambda>_. unix_time) tloc, w10)))"

section \<open>The reply checks as the specification words them\<close>

text \<open>The header byte holds, from the most significant bit, the 2-bit leap indicator, the
  3-bit version and the 3-bit mode (specification, data model). Server mode is 4, the
  version sent is 4, the alarm condition is leap indicator 3.\<close>

definition leap_of :: "8 word \<Rightarrow> 8 word" where
  "leap_of b = drop_bit 6 b"

definition version_of :: "8 word \<Rightarrow> 8 word" where
  "version_of b = take_bit 3 (drop_bit 3 b)"

definition mode_of :: "8 word \<Rightarrow> 8 word" where
  "mode_of b = take_bit 3 b"

text \<open>The rejection rules a. to f. of the validation step, in the stated priority order,
  each with the code it reports; \<open>t1\<close> is the transmit timestamp the client sent.\<close>

definition spec_validation_order ::
  "(errno_code \<times> (tstamp64_t \<Rightarrow> ntp_packet \<Rightarrow> bool)) list" where
  "spec_validation_order =
     [(EOPNOTSUPP, \<lambda>t1 r. mode_of (li_vn_mode r) \<noteq> 4),
      (EPROTONOSUPPORT, \<lambda>t1 r. version_of (li_vn_mode r) \<noteq> 4),
      (ENODATA, \<lambda>t1 r. leap_of (li_vn_mode r) = 3),
      (EPFNOSUPPORT, \<lambda>t1 r. stratum r > 15),
      (EAGAIN, \<lambda>t1 r. stratum r = 0),
      (EBADMSG, \<lambda>t1 r. org r \<noteq> t1)]"

text \<open>The first rule of the list that rejects the reply, if any.\<close>

definition spec_first_failure :: "tstamp64_t \<Rightarrow> ntp_packet \<Rightarrow> errno_code option" where
  "spec_first_failure t1 r =
     map_option fst (find (\<lambda>(e, rejects). rejects t1 r) spec_validation_order)"

section \<open>Concrete surroundings\<close>

text \<open>A state in which nothing has happened yet.\<close>

definition fresh_world :: world where
  "fresh_world =
     \<lparr>errno = None, local_port = 0, written = [], packets_ended = 0, polls = 0,
      delay_ms = 0, reads = 0, flushes = 0, millis_calls = 0, serial = []\<rparr>"

text \<open>A network in which every call succeeds and the datagram that the first poll finds
  has \<open>n\<close> bytes and fills the packet with \<open>reply\<close>; the clock advances 250 ms between
  two readings.\<close>

definition answering_env :: "int \<Rightarrow> ntp_packet \<Rightarrow> net_env" where
  "answering_env n reply =
     \<lparr>wifi_connected = True, begin_ok = True, beginPacket_ok = True, write_count = 48,
      endPacket_ok = True, parsePacket = (\<lambda>k. n), udp_read = (\<lambda>buf. (48, reply)),
      millis = (\<lambda>k. of_nat (250 * k))\<rparr>"

text \<open>The same network when no datagram ever arrives.\<close>

definition silent_env :: net_env where
  "silent_env = answering_env 0 zeroed_packet"

text \<open>A well-formed server reply to a request with transmit timestamp \<open>t1\<close>: no leap
  warning, version 4, server mode, stratum 2, the originate timestamp echoing \<open>t1\<close>.\<close>

definition good_reply :: "tstamp64_t \<Rightarrow> ntp_packet" where
  "good_reply t1 = zeroed_packet\<lparr>li_vn_mode := 0x24, stratum := 2, org := t1, rec := t1, xmt := t1\<rparr>"

text \<open>A kiss-of-death reply: as \<open>good_reply\<close>, but with stratum 0 and the four bytes
  \<open>D\<close>, \<open>E\<close>, \<open>N\<close>, \<open>Y\<close> in the reference-id field, which the little-endian host reads as
  the 32-bit value \<open>0x594E4544\<close>.\<close>

definition kod_reply :: "tstamp64_t \<Rightarrow> ntp_packet" where
  "kod_reply t1 = (good_reply t1)\<lparr>stratum := 0, refid := 0x594E4544\<rparr>"

text \<open>A memory in which only the addresses \<open>0x3FFE8000\<close> to \<open>0x3FFFFFFF\<close> can be read (the
  range of the data RAM of the ESP8266), all of them holding NUL.\<close>

definition data_ram_only :: memory where
  "data_ram_only a = (if 0x3FFE8000 \<le> a \<and> a \<le> 0x3FFFFFFF then Some NUL else None)"

text \<open>A memory that holds the bytes \<open>bs\<close> from address \<open>base\<close> on and nothing else.\<close>

definition memory_with :: "32 word \<Rightarrow> string \<Rightarrow> memory" where
  "memory_with base bs a =
     (if unat (a - base) < length bs then Some (bs ! unat (a - base)) else None)"

section \<open>Properties of the timestamp codec\<close>

subsection \<open>Byte swaps and half-word extraction\<close>

lemma mask_ff_32: "(0xff :: 32 word) = mask 8" by (simp add: mask_eq_decr_exp)

lemma mask_ff00_32: "(0xff00 :: 32 word) = push_bit 8 (mask 8)" by (simp add: mask_eq_decr_exp)

lemma bit_htonl_a: "bit (push_bit 24 ((x::32 word) AND mask 8)) n \<longleftrightarrow> 24 \<le> n \<and> n < 32 \<and> bit x (n - 24)"
  by (auto simp add: bit_simps)

lemma bit_htonl_b: "bit (push_bit 8 ((x::32 word) AND push_bit 8 (mask 8))) n \<longleftrightarrow> 16 \<le> n \<and> n < 24 \<and> bit x (n - 8)"
  by (auto simp add: bit_simps)

lemma bit_htonl_c: "bit (drop_bit 8 (x::32 word) AND push_bit 8 (mask 8)) n \<longleftrightarrow> 8 \<le> n \<and> n < 16 \<and> bit x (n + 8)"
  by (auto simp add: bit_simps add.commute)

lemma bit_htonl_d: "bit (drop_bit 24 (x::32 word) AND mask 8) n \<longleftrightarrow> n < 8 \<and> bit x (n + 24)"
  by (auto simp add: bit_simps add.commute)

lemma bit_htonl:
  "bit (htonl x) n \<longleftrightarrow>
     (24 \<le> n \<and> n < 32 \<and> bit x (n - 24)) \<or> (16 \<le> n \<and> n < 24 \<and> bit x (n - 8))
     \<or> (8 \<le> n \<and> n < 16 \<and> bit x (n + 8)) \<or> (n < 8 \<and> bit x (n + 24))"
  unfolding htonl_def mask_ff_32 mask_ff00_32
  by (simp only: bit_or_iff bit_htonl_a bit_htonl_b bit_htonl_c bit_htonl_d)

lemma bit_htonl_if:
  "bit (htonl x) n \<longleftrightarrow>
     (if n < 8 then bit x (n + 24) else if n < 16 then bit x (n + 8)
      else if n < 24 then bit x (n - 8) else n < 32 \<and> bit x (n - 24))"
  by (auto simp add: bit_htonl)

lemma ntohl_htonl: "ntohl (htonl x) = x"
proof (rule bit_word_eqI)
  fix n assume "n < LENGTH(32)"
  then have n: "n < 32" by simp
  consider "n < 8" | m where "n = m + 8" "m < 8" | m where "n = m + 16" "m < 8"
    | m where "n = m + 24" "m < 8"
  proof -
    have "n < 8 \<or> (n - 8 < 8 \<and> n = (n - 8) + 8) \<or> (n - 16 < 8 \<and> n = (n - 16) + 16)
          \<or> (n - 24 < 8 \<and> n = (n - 24) + 24)"
      using n by linarith
    then show ?thesis using that by blast
  qed
  then show "bit (ntohl (htonl x)) n \<longleftrightarrow> bit x n"
  proof cases
    case 1 then show ?thesis by (simp add: ntohl_def bit_htonl_if add.commute)
  next
    case 2 then show ?thesis by (simp add: ntohl_def bit_htonl_if add.commute)
  next
    case 3 then show ?thesis by (simp add: ntohl_def bit_htonl_if add.commute)
  next
    case 4 then show ?thesis by (simp add: ntohl_def bit_htonl_if add.commute)
  qed
qed

lemma mask_ff_16: "(0xff :: 16 word) = mask 8" by (simp add: mask_eq_decr_exp)

lemma mask_ffff_32: "(0xffff :: 32 word) = mask 16" by (simp add: mask_eq_decr_exp)

lemma mask_ffffffff_64: "(0xffffffff :: 64 word) = mask 32" by (simp add: mask_eq_decr_exp)

lemma ntohs_htons: "ntohs (htons x) = x"
  unfolding ntohs_def htons_def mask_ff_16
  by (rule bit_word_eqI) (auto simp add: bit_simps)

lemma low_half_64:
  "(ucast ((ucast (a::32 word) OR push_bit 32 (ucast (b::32 word)) :: 64 word) AND 0xffffffff) :: 32 word) = a"
  unfolding mask_ffffffff_64
  by (rule bit_word_eqI) (auto simp add: bit_simps)

lemma high_half_64:
  "(ucast (drop_bit 32 (ucast (a::32 word) OR push_bit 32 (ucast (b::32 word)) :: 64 word) AND 0xffffffff) :: 32 word) = b"
  unfolding mask_ffffffff_64
  by (rule bit_word_eqI) (auto simp add: bit_simps dest: bit_imp_le_length)

lemma low_half_32:
  "(ucast ((ucast (a::16 word) OR push_bit 16 (ucast (b::16 word)) :: 32 word) AND 0xffff) :: 16 word) = a"
  unfolding mask_ffff_32
  by (rule bit_word_eqI) (auto simp add: bit_simps)

lemma high_half_32:
  "(ucast (drop_bit 16 (ucast (a::16 word) OR push_bit 16 (ucast (b::16 word)) :: 32 word) AND 0xffff) :: 16 word) = b"
  unfolding mask_ffff_32
  by (rule bit_word_eqI) (auto simp add: bit_simps dest: bit_imp_le_length)

subsection \<open>Generating and reading back a timestamp\<close>

lemma getSeconds64_generateTstamp64:
  "getSeconds64 LittleEndian (generateTstamp64 LittleEndian s f) = s"
  by (simp only: getSeconds64_def generateTstamp64_def Let_def byte_order.case drop_bit_0
        id_apply low_half_64 ntohl_htonl)

lemma getSeconds32_generateTstamp32:
  "getSeconds32 LittleEndian (generateTstamp32 LittleEndian s f) = s"
  by (simp only: getSeconds32_def generateTstamp32_def Let_def byte_order.case drop_bit_0
        id_apply low_half_32 ntohs_htons)

lemma getFraction64_generateTstamp64:
  "getFraction64 LittleEndian (generateTstamp64 LittleEndian s f)
     = real (unat (double_to_uint32 (f * FRAC))) / FRAC"
  by (simp only: getFraction64_def generateTstamp64_def Let_def byte_order.case
        high_half_64 ntohl_htonl)

lemma getFraction32_generateTstamp32:
  "getFraction32 LittleEndian (generateTstamp32 LittleEndian s f)
     = real (unat (double_to_uint16 (f * FRIC))) / FRIC"
  by (simp only: getFraction32_def generateTstamp32_def Let_def byte_order.case
        high_half_32 ntohs_htons)

lemma unat_double_to_uint32:
  assumes "0 \<le> x" "x < 4294967296"
  shows "real (unat (double_to_uint32 x)) = of_int \<lfloor>x\<rfloor>"
proof -
  have lo: "0 \<le> \<lfloor>x\<rfloor>" using assms by simp
  have hi: "\<lfloor>x\<rfloor> < 4294967296" using assms by (simp add: floor_less_iff)
  have "uint (word_of_int \<lfloor>x\<rfloor> :: 32 word) = \<lfloor>x\<rfloor>"
    using lo hi by (simp add: uint_word_of_int)
  then have "int (unat (word_of_int \<lfloor>x\<rfloor> :: 32 word)) = \<lfloor>x\<rfloor>"
    by simp
  then have "real (unat (word_of_int \<lfloor>x\<rfloor> :: 32 word)) = of_int \<lfloor>x\<rfloor>"
    by (metis of_int_of_nat_eq)
  then show ?thesis using assms by (simp add: double_to_uint32_def trunc_toward_zero_def)
qed

lemma unat_double_to_uint16:
  assumes "0 \<le> x" "x < 65536"
  shows "real (unat (double_to_uint16 x)) = of_int \<lfloor>x\<rfloor>"
proof -
  have lo: "0 \<le> \<lfloor>x\<rfloor>" using assms by simp
  have hi: "\<lfloor>x\<rfloor> < 65536" using assms by (simp add: floor_less_iff)
  have "uint (word_of_int \<lfloor>x\<rfloor> :: 16 word) = \<lfloor>x\<rfloor>"
    using lo hi by (simp add: uint_word_of_int)
  then have "int (unat (word_of_int \<lfloor>x\<rfloor> :: 16 word)) = \<lfloor>x\<rfloor>"
    by simp
  then have "real (unat (word_of_int \<lfloor>x\<rfloor> :: 16 word)) = of_int \<lfloor>x\<rfloor>"
    by (metis of_int_of_nat_eq)
  then show ?thesis using assms by (simp add: double_to_uint16_def trunc_toward_zero_def)
qed

lemma floor_scaled_close:
  fixes f c :: real
  assumes "0 < c"
  shows "of_int \<lfloor>f * c\<rfloor> / c \<le> f \<and> f - of_int \<lfloor>f * c\<rfloor> / c < 1 / c"
proof -
  have a: "of_int \<lfloor>f * c\<rfloor> \<le> f * c" by simp
  have b: "f * c < of_int \<lfloor>f * c\<rfloor> + 1" by linarith
  from a assms have "of_int \<lfloor>f * c\<rfloor> / c \<le> f"
    by (simp add: pos_divide_le_eq)
  moreover from b assms have "f < (of_int \<lfloor>f * c\<rfloor> + 1) / c"
    by (simp add: pos_less_divide_eq)
  then have "f - of_int \<lfloor>f * c\<rfloor> / c < 1 / c"
    by (simp add: add_divide_distrib)
  ultimately show ?thesis by simp
qed

text \<open>
  Claim C3. On the little-endian build, for every seconds value and every real fraction
  \<open>f\<close> with \<open>0 \<le> f < 1\<close>, \<open>getSeconds\<close> of the generated timestamp is the seconds value
  and \<open>getFraction\<close> of it differs from \<open>f\<close> by less than the quantization step:
  \<open>2 ^ -32\<close> for the 64-bit timestamp and \<open>2 ^ -16\<close> for the 32-bit timestamp.
\<close>

theorem codec_round_trip:
  assumes "0 \<le> f" and "f < 1"
  shows "getSeconds64 LittleEndian (generateTstamp64 LittleEndian s f) = s
       \<and> \<bar>getFraction64 LittleEndian (generateTstamp64 LittleEndian s f) - f\<bar> < 1 / 2 ^ 32
       \<and> getSeconds32 LittleEndian (generateTstamp32 LittleEndian t f) = t
       \<and> \<bar>getFraction32 LittleEndian (generateTstamp32 LittleEndian t f) - f\<bar> < 1 / 2 ^ 16"
proof -
  have r64: "0 \<le> f * FRAC" "f * FRAC < 4294967296"
    using assms by (simp_all add: FRAC_def)
  have r32: "0 \<le> f * FRIC" "f * FRIC < 65536"
    using assms by (simp_all add: FRIC_def)
  have e64: "getFraction64 LittleEndian (generateTstamp64 LittleEndian s f)
               = of_int \<lfloor>f * FRAC\<rfloor> / FRAC"
    by (simp only: getFraction64_generateTstamp64 unat_double_to_uint32 [OF r64])
  have e32: "getFraction32 LittleEndian (generateTstamp32 LittleEndian t f)
               = of_int \<lfloor>f * FRIC\<rfloor> / FRIC"
    by (simp only: getFraction32_generateTstamp32 unat_double_to_uint16 [OF r32])
  have c64: "of_int \<lfloor>f * FRAC\<rfloor> / FRAC \<le> f \<and> f - of_int \<lfloor>f * FRAC\<rfloor> / FRAC < 1 / FRAC"
    by (rule floor_scaled_close) (simp add: FRAC_def)
  have c32: "of_int \<lfloor>f * FRIC\<rfloor> / FRIC \<le> f \<and> f - of_int \<lfloor>f * FRIC\<rfloor> / FRIC < 1 / FRIC"
    by (rule floor_scaled_close) (simp add: FRIC_def)
  have p64: "(2::real) ^ 32 = FRAC" by (simp add: FRAC_def)
  have p32: "(2::real) ^ 16 = FRIC" by (simp add: FRIC_def)
  have "\<bar>getFraction64 LittleEndian (generateTstamp64 LittleEndian s f) - f\<bar> < 1 / 2 ^ 32"
    unfolding e64 p64 using c64 by linarith
  moreover have "\<bar>getFraction32 LittleEndian (generateTstamp32 LittleEndian t f) - f\<bar> < 1 / 2 ^ 16"
    unfolding e32 p32 using c32 by linarith
  ultimately show ?thesis
    by (simp only: getSeconds64_generateTstamp64 getSeconds32_generateTstamp32 simp_thms)
qed

theorem codec_round_trip_witness:
  "(0::real) \<le> 1 / 2 \<and> (1 / 2 :: real) < 1
   \<and> getSeconds64 LittleEndian (generateTstamp64 LittleEndian 3846232865 (1 / 2)) = 3846232865
   \<and> \<bar>getFraction64 LittleEndian (generateTstamp64 LittleEndian 3846232865 (1 / 2)) - 1 / 2\<bar> < 1 / 2 ^ 32
   \<and> getSeconds32 LittleEndian (generateTstamp32 LittleEndian 7 (1 / 2)) = 7
   \<and> \<bar>getFraction32 LittleEndian (generateTstamp32 LittleEndian 7 (1 / 2)) - 1 / 2\<bar> < 1 / 2 ^ 16"
  using codec_round_trip [of "1 / 2" 3846232865 7] by simp

text \<open>The big-endian bodies are not compiled for the ESP8266. In them \<open>getSeconds\<close>
  returns the low half of the timestamp, which \<open>generateTstamp\<close> fills with the fraction.\<close>

lemma big_endian_getSeconds_reads_fraction:
  "getSeconds64 BigEndian (generateTstamp64 BigEndian s f) = double_to_uint32 (f * FRAC)"
  "getSeconds32 BigEndian (generateTstamp32 BigEndian t f) = double_to_uint16 (f * FRIC)"
proof -
  have a: "(ucast ((push_bit 32 (ucast (s :: 32 word)) OR ucast (r :: 32 word) :: 64 word) AND 0xffffffff) :: 32 word) = r" for r
    unfolding mask_ffffffff_64 by (rule bit_word_eqI) (auto simp add: bit_simps)
  have b: "(ucast ((push_bit 16 (ucast (t :: 16 word)) OR ucast (r :: 16 word) :: 32 word) AND 0xffff) :: 16 word) = r" for r
    unfolding mask_ffff_32 by (rule bit_word_eqI) (auto simp add: bit_simps)
  show "getSeconds64 BigEndian (generateTstamp64 BigEndian s f) = double_to_uint32 (f * FRAC)"
    by (simp only: getSeconds64_def generateTstamp64_def Let_def byte_order.case a)
  show "getSeconds32 BigEndian (generateTstamp32 BigEndian t f) = double_to_uint16 (f * FRIC)"
    by (simp only: getSeconds32_def generateTstamp32_def Let_def byte_order.case b)
qed

section \<open>Properties of the message transport\<close>

subsection \<open>The polling loop\<close>

lemma poll_loop_answered:
  "parsePacket env (polls w) \<noteq> 0 \<Longrightarrow>
     poll_loop env timeout ms_cycles w = (parsePacket env (polls w), w\<lparr>polls := Suc (polls w)\<rparr>)"
  by (subst poll_loop.simps) (simp add: Let_def)

lemma poll_loop_unanswered:
  assumes "parsePacket env (polls w) = 0"
  shows "poll_loop env timeout ms_cycles w =
           (if ms_cycles + 1 < timeout
            then poll_loop env timeout (ms_cycles + 1)
                   (w\<lparr>polls := Suc (polls w), delay_ms := Suc (delay_ms w)\<rparr>)
            else (0, w\<lparr>polls := Suc (polls w), delay_ms := Suc (delay_ms w)\<rparr>))"
  using assms by (subst poll_loop.simps) (simp add: Let_def)

text \<open>The cycles that remain when the counter is \<open>c\<close>: \<open>unat (timeout - (c + 1))\<close> more
  after the current one.\<close>

lemma remaining_step:
  fixes c t :: "32 word"
  assumes "c + 1 \<le> t" and "unat (t - (c + 1)) = Suc n"
  shows "c + 1 < t" and "c + 1 + 1 \<le> t" and "unat (t - (c + 1 + 1)) = n"
proof -
  have ne: "t - (c + 1) \<noteq> 0"
    using assms(2) by (metis Zero_not_Suc unat_0)
  then have "c + 1 \<noteq> t" by auto
  with assms(1) show lt: "c + 1 < t" by (simp add: word_le_less_eq)
  then show "c + 1 + 1 \<le> t" by (rule inc_le)
  have e: "t - (c + 1 + 1) = t - (c + 1) - 1" by (simp only: diff_diff_eq)
  show "unat (t - (c + 1 + 1)) = n"
    unfolding e using unat_minus_one [OF ne] assms(2) by linarith
qed

lemma remaining_done:
  fixes c t :: "32 word"
  assumes "unat (t - (c + 1)) = 0"
  shows "\<not> c + 1 < t"
proof -
  have "t - (c + 1) = 0" using assms by (simp add: unat_eq_0)
  then show ?thesis by simp
qed

lemma poll_loop_first_answer:
  assumes "\<forall>j<k. parsePacket env (polls w + j) = 0"
    and "parsePacket env (polls w + k) \<noteq> 0"
    and "c + 1 \<le> timeout" and "k \<le> unat (timeout - (c + 1))"
  shows "poll_loop env timeout c w =
           (parsePacket env (polls w + k),
            w\<lparr>polls := polls w + Suc k, delay_ms := delay_ms w + k\<rparr>)"
  using assms
proof (induction k arbitrary: c w)
  case 0
  then show ?case by (simp add: poll_loop_answered)
next
  case (Suc k)
  obtain n where n: "unat (timeout - (c + 1)) = Suc n" and kn: "k \<le> n"
    using Suc.prems(4) by (cases "unat (timeout - (c + 1))") auto
  note step = remaining_step [OF Suc.prems(3) n]
  let ?w = "w\<lparr>polls := Suc (polls w), delay_ms := Suc (delay_ms w)\<rparr>"
  have zero: "parsePacket env (polls w) = 0"
  proof -
    have "parsePacket env (polls w + 0) = 0" using Suc.prems(1) by blast
    then show ?thesis by simp
  qed
  have "poll_loop env timeout (c + 1) ?w =
          (parsePacket env (polls ?w + k),
           ?w\<lparr>polls := polls ?w + Suc k, delay_ms := delay_ms ?w + k\<rparr>)"
  proof (rule Suc.IH)
    show "\<forall>j<k. parsePacket env (polls ?w + j) = 0"
    proof (intro allI impI)
      fix j assume "j < k"
      then have "Suc j < Suc k" by simp
      then have "parsePacket env (polls w + Suc j) = 0" using Suc.prems(1) by blast
      then show "parsePacket env (polls ?w + j) = 0" by simp
    qed
    show "parsePacket env (polls ?w + k) \<noteq> 0"
      using Suc.prems(2) by simp
    show "c + 1 + 1 \<le> timeout" by (rule step(2))
    show "k \<le> unat (timeout - (c + 1 + 1))" using step(3) kn by simp
  qed
  then show ?case
    using step(1) by (simp add: poll_loop_unanswered [OF zero])
qed

lemma poll_loop_silent:
  assumes "\<forall>j. parsePacket env (polls w + j) = 0"
    and "c + 1 \<le> timeout" and "unat (timeout - (c + 1)) = n"
  shows "poll_loop env timeout c w =
           (0, w\<lparr>polls := polls w + Suc n, delay_ms := delay_ms w + Suc n\<rparr>)"
  using assms
proof (induction n arbitrary: c w)
  case 0
  have zero: "parsePacket env (polls w) = 0"
  proof -
    have "parsePacket env (polls w + 0) = 0" using "0.prems"(1) by blast
    then show ?thesis by simp
  qed
  show ?case
    using remaining_done [OF "0.prems"(3)] by (simp add: poll_loop_unanswered [OF zero])
next
  case (Suc n)
  note step = remaining_step [OF Suc.prems(2) Suc.prems(3)]
  let ?w = "w\<lparr>polls := Suc (polls w), delay_ms := Suc (delay_ms w)\<rparr>"
  have zero: "parsePacket env (polls w) = 0"
  proof -
    have "parsePacket env (polls w + 0) = 0" using Suc.prems(1) by blast
    then show ?thesis by simp
  qed
  have "poll_loop env timeout (c + 1) ?w =
          (0, ?w\<lparr>polls := polls ?w + Suc n, delay_ms := delay_ms ?w + Suc n\<rparr>)"
  proof (rule Suc.IH)
    show "\<forall>j. parsePacket env (polls ?w + j) = 0"
    proof
      fix j
      have "parsePacket env (polls w + Suc j) = 0" using Suc.prems(1) by blast
      then show "parsePacket env (polls ?w + j) = 0" by simp
    qed
    show "c + 1 + 1 \<le> timeout" by (rule step(2))
    show "unat (timeout - (c + 1 + 1)) = n" by (rule step(3))
  qed
  then show ?case
    using step(1) by (simp add: poll_loop_unanswered [OF zero])
qed

lemma first_cycle:
  fixes timeout :: "32 word"
  assumes "timeout \<noteq> 0"
  shows "0 + 1 \<le> timeout" and "Suc (unat (timeout - (0 + 1))) = unat timeout"
proof -
  have "0 < timeout" using assms by (simp add: word_neq_0_conv)
  then show "0 + 1 \<le> timeout" by (rule inc_le)
  have "unat (timeout - 1) = unat timeout - 1" using assms by (rule unat_minus_one)
  moreover have "0 < unat timeout" using assms by (simp add: unat_gt_0)
  ultimately show "Suc (unat (timeout - (0 + 1))) = unat timeout" by simp
qed

subsection \<open>Receiving\<close>

lemma receive_server_reply_silent:
  assumes "\<forall>k. parsePacket env k = 0" and "timeout \<noteq> 0"
  shows "receive_server_reply env (Some buf) timeout w =
           (False, Some buf,
            fail_with EPROTONOSUPPORT
              (w\<lparr>polls := polls w + unat timeout, delay_ms := delay_ms w + unat timeout\<rparr>))"
proof -
  have "poll_loop env timeout 0 w =
          (0, w\<lparr>polls := polls w + Suc (unat (timeout - (0 + 1))),
                delay_ms := delay_ms w + Suc (unat (timeout - (0 + 1)))\<rparr>)"
    using assms(1) first_cycle(1) [OF assms(2)] by (intro poll_loop_silent) simp_all
  then have "poll_loop env timeout 0 w =
          (0, w\<lparr>polls := polls w + unat timeout, delay_ms := delay_ms w + unat timeout\<rparr>)"
    by (simp only: first_cycle(2) [OF assms(2)])
  then show ?thesis
    using assms(2) by (simp add: receive_server_reply_def sizeof_ntp_packet_def)
qed

lemma receive_server_reply_short:
  assumes "\<forall>j<k. parsePacket env (polls w + j) = 0"
    and "parsePacket env (polls w + k) \<noteq> 0"
    and "parsePacket env (polls w + k) < int sizeof_ntp_packet"
    and "k < unat timeout"
  shows "receive_server_reply env (Some buf) timeout w =
           (False, Some buf,
            fail_with EPROTONOSUPPORT (w\<lparr>polls := polls w + Suc k, delay_ms := delay_ms w + k\<rparr>))"
proof -
  have ne: "timeout \<noteq> 0" using assms(4) by auto
  have "k \<le> unat (timeout - (0 + 1))"
    using first_cycle(2) [OF ne] assms(4) by linarith
  then have "poll_loop env timeout 0 w =
          (parsePacket env (polls w + k),
           w\<lparr>polls := polls w + Suc k, delay_ms := delay_ms w + k\<rparr>)"
    using assms(1,2) first_cycle(1) [OF ne] by (intro poll_loop_first_answer) simp_all
  then show ?thesis
    using ne assms(3) by (simp add: receive_server_reply_def)
qed

text \<open>
  Claim C9. When the datagram that arrives (at the poll number \<open>k\<close>, within the budget)
  has fewer than 48 bytes, \<open>receive_server_reply\<close> fails with \<open>EPROTONOSUPPORT\<close> without
  calling \<open>read\<close>, and the caller's packet is left as it was.
\<close>

theorem short_datagram_rejected_before_read:
  assumes "\<forall>j<k. parsePacket env (polls w + j) = 0"
    and "parsePacket env (polls w + k) \<noteq> 0"
    and "parsePacket env (polls w + k) < 48"
    and "k < unat timeout"
  shows "\<exists>w'. receive_server_reply env (Some buf) timeout w = (False, Some buf, w')
              \<and> errno w' = Some EPROTONOSUPPORT
              \<and> reads w' = reads w
              \<and> polls w' = polls w + Suc k"
proof -
  have "parsePacket env (polls w + k) < int sizeof_ntp_packet"
    using assms(3) by (simp add: sizeof_ntp_packet_def)
  from receive_server_reply_short [OF assms(1,2) this assms(4), of buf]
  show ?thesis by (simp add: fail_with_def)
qed

theorem short_datagram_rejected_before_read_witness:
  "\<exists>w'. receive_server_reply (answering_env 47 (good_reply 1)) (Some zeroed_packet) TIMEOUT
            fresh_world = (False, Some zeroed_packet, w')
        \<and> errno w' = Some EPROTONOSUPPORT \<and> reads w' = 0 \<and> polls w' = 1"
proof -
  have a: "\<forall>j<0. parsePacket (answering_env 47 (good_reply 1)) (polls fresh_world + j) = 0"
    by simp
  have b: "parsePacket (answering_env 47 (good_reply 1)) (polls fresh_world + 0) \<noteq> 0"
    by (simp add: answering_env_def)
  have c: "parsePacket (answering_env 47 (good_reply 1)) (polls fresh_world + 0) < 48"
    by (simp add: answering_env_def)
  have d: "0 < unat TIMEOUT" by (simp add: TIMEOUT_def)
  show ?thesis
    using short_datagram_rejected_before_read [OF a b c d, of zeroed_packet]
    by (simp add: fresh_world_def)
qed

subsection \<open>One exchange\<close>

lemma packetExchange_silent:
  assumes "\<forall>k. parsePacket env k = 0" and "timeout \<noteq> 0"
    and "net_provider env w = (True, w1)"
    and "send_server_request env (Some q) w1 = (True, w2)"
  shows "packetExchange env (Some q) timeout w =
           (False, Some q,
            fail_with EPROTONOSUPPORT
              (w2\<lparr>polls := polls w2 + unat timeout, delay_ms := delay_ms w2 + unat timeout\<rparr>))"
  using assms(2-) receive_server_reply_silent [OF assms(1,2), of q w2]
  by (simp add: packetExchange_def)

lemma packetExchange_answered:
  assumes "local_port w = 0"
  shows "packetExchange (answering_env 48 reply) (Some q) TIMEOUT w =
     (True, Some reply,
      w\<lparr>local_port := UDP_LOCAL_PORT, written := written w @ [q],
        packets_ended := Suc (packets_ended w), polls := Suc (polls w),
        reads := Suc (reads w), flushes := Suc (flushes w)\<rparr>)"
  using assms
  by (simp add: packetExchange_def net_provider_def send_server_request_def
        receive_server_reply_def poll_loop_answered answering_env_def
        TIMEOUT_def UDP_LOCAL_PORT_def sizeof_ntp_packet_def Let_def)

lemma packetExchange_answering:
  "packetExchange (answering_env 48 reply) (Some q) TIMEOUT fresh_world =
     (True, Some reply,
      fresh_world\<lparr>local_port := UDP_LOCAL_PORT, written := [q], packets_ended := 1,
                  polls := 1, reads := 1, flushes := 1\<rparr>)"
  by (simp add: packetExchange_def net_provider_def send_server_request_def
        receive_server_reply_def poll_loop_answered answering_env_def fresh_world_def
        TIMEOUT_def UDP_LOCAL_PORT_def sizeof_ntp_packet_def Let_def)

lemma net_provider_unbound:
  assumes "local_port w = 0"
  shows "net_provider (answering_env n r) w = (True, w\<lparr>local_port := UDP_LOCAL_PORT\<rparr>)"
  using assms by (simp add: net_provider_def answering_env_def UDP_LOCAL_PORT_def)

lemma send_server_request_accepted:
  "send_server_request (answering_env n r) (Some q) w =
     (True, w\<lparr>written := written w @ [q], packets_ended := Suc (packets_ended w)\<rparr>)"
  by (simp add: send_server_request_def answering_env_def sizeof_ntp_packet_def)

lemma net_provider_fresh:
  "net_provider (answering_env n r) fresh_world =
     (True, fresh_world\<lparr>local_port := UDP_LOCAL_PORT\<rparr>)"
  by (simp add: net_provider_def answering_env_def fresh_world_def UDP_LOCAL_PORT_def)

lemma send_server_request_fresh:
  "send_server_request (answering_env n r) (Some q) (fresh_world\<lparr>local_port := UDP_LOCAL_PORT\<rparr>) =
     (True, fresh_world\<lparr>local_port := UDP_LOCAL_PORT, written := [q], packets_ended := 1\<rparr>)"
  by (simp add: send_server_request_def answering_env_def fresh_world_def sizeof_ntp_packet_def)

lemma silent_env_polls: "parsePacket silent_env k = 0"
  by (simp add: silent_env_def answering_env_def)

subsection \<open>What reaches the datagram channel\<close>

lemma poll_loop_written: "written (snd (poll_loop env timeout c w)) = written w"
proof (induction env timeout c w rule: poll_loop.induct)
  case (1 env timeout ms_cycles w)
  show ?case
    by (subst poll_loop.simps) (simp add: Let_def "1.IH")
qed

lemma receive_server_reply_written:
  "written (snd (snd (receive_server_reply env packet timeout w))) = written w"
  using poll_loop_written [of env timeout 0 w]
  by (auto simp add: receive_server_reply_def fail_with_def Let_def
        split: option.splits prod.splits)

lemma net_provider_written: "written (snd (net_provider env w)) = written w"
  by (simp add: net_provider_def fail_with_def)

lemma send_server_request_written:
  "written (snd (send_server_request env (Some q) w)) =
     written w @ (if beginPacket_ok env then [q] else [])"
  by (simp add: send_server_request_def fail_with_def Let_def)

lemma packetExchange_written:
  assumes "timeout \<noteq> 0"
  shows "written (snd (snd (packetExchange env (Some q) timeout w))) =
     written w @ (if fst (net_provider env w) \<and> beginPacket_ok env then [q] else [])"
  using assms net_provider_written [of env w]
    send_server_request_written [of env q "snd (net_provider env w)"]
    receive_server_reply_written [of env "Some q" timeout
      "snd (send_server_request env (Some q) (snd (net_provider env w)))"]
  by (auto simp add: packetExchange_def Let_def split: prod.splits)

section \<open>Properties of the on-wire protocol engine\<close>

subsection \<open>The header byte\<close>

lemma mode_mask: "(b AND MODE_MASK = MODE_SERVER) \<longleftrightarrow> mode_of b = 4"
proof -
  have m: "MODE_MASK = mask 3" by (simp add: MODE_MASK_def mask_eq_decr_exp)
  have "b AND MODE_MASK = take_bit 3 b" unfolding m by (simp add: take_bit_eq_mask)
  then show ?thesis by (simp add: mode_of_def MODE_SERVER_def)
qed

lemma version_mask: "(b AND PROTOCOL_MASK = NTP_VERSION_4) \<longleftrightarrow> version_of b = 4"
proof -
  have m: "PROTOCOL_MASK = push_bit 3 (mask 3)" by (simp add: PROTOCOL_MASK_def mask_eq_decr_exp)
  have up: "push_bit 3 (take_bit 3 (drop_bit 3 b)) = b AND PROTOCOL_MASK"
    unfolding m by (rule bit_word_eqI) (auto simp add: bit_simps)
  have down: "drop_bit 3 (b AND PROTOCOL_MASK) = take_bit 3 (drop_bit 3 b)"
    unfolding m by (rule bit_word_eqI) (auto simp add: bit_simps)
  show ?thesis
  proof
    assume "b AND PROTOCOL_MASK = NTP_VERSION_4"
    then have "drop_bit 3 (b AND PROTOCOL_MASK) = drop_bit 3 (0x20 :: 8 word)"
      by (simp add: NTP_VERSION_4_def)
    moreover have "drop_bit 3 (0x20 :: 8 word) = 4" by (simp add: drop_bit_eq_div)
    ultimately show "version_of b = 4" by (simp only: down version_of_def)
  next
    assume "version_of b = 4"
    then have "push_bit 3 (take_bit 3 (drop_bit 3 b)) = push_bit 3 (4 :: 8 word)"
      by (simp add: version_of_def)
    moreover have "push_bit 3 (4 :: 8 word) = 0x20" by (simp add: push_bit_eq_mult)
    ultimately show "b AND PROTOCOL_MASK = NTP_VERSION_4"
      by (simp only: up NTP_VERSION_4_def)
  qed
qed

lemma leap_mask: "(b AND LEAP_MASK = LEAP_ALARM_CONDITION) \<longleftrightarrow> leap_of b = 3"
proof -
  have m: "LEAP_MASK = push_bit 6 (mask 2)" by (simp add: LEAP_MASK_def mask_eq_decr_exp)
  have up: "push_bit 6 (drop_bit 6 b) = b AND LEAP_MASK"
    unfolding m by (rule bit_word_eqI) (auto simp add: bit_simps dest: bit_imp_le_length)
  have down: "drop_bit 6 (b AND LEAP_MASK) = drop_bit 6 b"
    unfolding m by (rule bit_word_eqI) (auto simp add: bit_simps dest: bit_imp_le_length)
  show ?thesis
  proof
    assume "b AND LEAP_MASK = LEAP_ALARM_CONDITION"
    then have "drop_bit 6 (b AND LEAP_MASK) = drop_bit 6 (0xC0 :: 8 word)"
      by (simp add: LEAP_ALARM_CONDITION_def)
    moreover have "drop_bit 6 (0xC0 :: 8 word) = 3" by (simp add: drop_bit_eq_div)
    ultimately show "leap_of b = 3" by (simp only: down leap_of_def)
  next
    assume "leap_of b = 3"
    then have "push_bit 6 (drop_bit 6 b) = push_bit 6 (3 :: 8 word)"
      by (simp add: leap_of_def)
    moreover have "push_bit 6 (3 :: 8 word) = 0xC0" by (simp add: push_bit_eq_mult)
    ultimately show "b AND LEAP_MASK = LEAP_ALARM_CONDITION"
      by (simp only: up LEAP_ALARM_CONDITION_def)
  qed
qed

lemma header_0x24: "mode_of 0x24 = 4" "version_of 0x24 = 4" "leap_of 0x24 = 0"
  by (simp_all add: mode_of_def version_of_def leap_of_def drop_bit_eq_div take_bit_eq_mod)

lemma header_0x23: "leap_of 0x23 = 0" "version_of 0x23 = 4" "mode_of 0x23 = 3"
  by (simp_all add: mode_of_def version_of_def leap_of_def drop_bit_eq_div take_bit_eq_mod)

subsection \<open>The checks of the reply\<close>

lemma check_reply_fields:
  "check_reply mem t1 r w =
     (if mode_of (li_vn_mode r) \<noteq> 4 then Some (False, fail_with EOPNOTSUPP w)
      else if version_of (li_vn_mode r) \<noteq> 4 then Some (False, fail_with EPROTONOSUPPORT w)
      else if leap_of (li_vn_mode r) = 3 then Some (False, fail_with ENODATA w)
      else if stratum r > 15 then Some (False, fail_with EPFNOSUPPORT w)
      else if stratum r = 0 then
        map_option (\<lambda>(valid_code, out). (False, fail_with EAGAIN (serial_print out w)))
          (printKissCode mem (refid r))
      else if org r \<noteq> t1 then Some (False, fail_with EBADMSG w)
      else Some (True, w))"
  unfolding check_reply_def mode_mask version_mask leap_mask
  by (auto split: option.splits)

lemma check_reply_spec:
  "check_reply mem t1 r w =
     (case spec_first_failure t1 r of
        None \<Rightarrow> Some (True, w)
      | Some e \<Rightarrow>
          if e = EAGAIN
          then map_option (\<lambda>(valid_code, out). (False, fail_with EAGAIN (serial_print out w)))
                 (printKissCode mem (refid r))
          else Some (False, fail_with e w))"
  unfolding check_reply_fields spec_first_failure_def spec_validation_order_def
  by simp

lemma check_reply_written:
  "check_reply mem t1 r w = Some (ok, w') \<Longrightarrow> written w' = written w"
  by (auto simp add: check_reply_def fail_with_def serial_print_def
        split: if_splits option.splits)

lemma on_wire_exchange_checks:
  assumes "packetExchange env (Some (assemble_request p)) TIMEOUT w = (True, Some r, w1)"
  shows "on_wire_exchange env mem (Some p) w =
           map_option (\<lambda>(ok, w2). (ok, Some r, w2)) (check_reply mem (xmt p) r w1)"
  using assms by (simp add: on_wire_exchange_def Let_def)

lemma on_wire_exchange_good_reply:
  assumes "local_port w = 0"
  shows "on_wire_exchange (answering_env 48 (good_reply (xmt p))) mem (Some p) w =
     Some (True, Some (good_reply (xmt p)),
      w\<lparr>local_port := UDP_LOCAL_PORT, written := written w @ [assemble_request p],
        packets_ended := Suc (packets_ended w), polls := Suc (polls w),
        reads := Suc (reads w), flushes := Suc (flushes w)\<rparr>)"
  unfolding on_wire_exchange_checks [OF packetExchange_answered [OF assms]] check_reply_fields
  by (simp add: good_reply_def zeroed_packet_def header_0x24)

lemma on_wire_exchange_silent:
  assumes "\<forall>k. parsePacket env k = 0"
    and "net_provider env w = (True, w1)"
    and "send_server_request env (Some (assemble_request p)) w1 = (True, w2)"
  shows "on_wire_exchange env mem (Some p) w =
           Some (False, Some (assemble_request p),
                 fail_with EPROTONOSUPPORT
                   (w2\<lparr>polls := polls w2 + 1024, delay_ms := delay_ms w2 + 1024\<rparr>))"
proof -
  have "TIMEOUT \<noteq> 0" and "unat TIMEOUT = 1024" by (simp_all add: TIMEOUT_def)
  then show ?thesis
    using packetExchange_silent [OF assms(1) _ assms(2,3), of TIMEOUT]
    by (simp add: on_wire_exchange_def)
qed

lemma on_wire_exchange_silent_env:
  assumes "local_port w = 0"
  shows "on_wire_exchange silent_env mem (Some p) w =
           Some (False, Some (assemble_request p),
                 fail_with EPROTONOSUPPORT
                   (w\<lparr>local_port := UDP_LOCAL_PORT, written := written w @ [assemble_request p],
                      packets_ended := Suc (packets_ended w),
                      polls := polls w + 1024, delay_ms := delay_ms w + 1024\<rparr>))"
proof -
  have a: "\<forall>k. parsePacket silent_env k = 0" by (simp add: silent_env_polls)
  have b: "net_provider silent_env w = (True, w\<lparr>local_port := UDP_LOCAL_PORT\<rparr>)"
    unfolding silent_env_def by (rule net_provider_unbound [OF assms])
  have c: "send_server_request silent_env (Some (assemble_request p)) (w\<lparr>local_port := UDP_LOCAL_PORT\<rparr>)
             = (True, w\<lparr>local_port := UDP_LOCAL_PORT, written := written w @ [assemble_request p],
                        packets_ended := Suc (packets_ended w)\<rparr>)"
    unfolding silent_env_def by (simp add: send_server_request_accepted)
  show ?thesis
    using on_wire_exchange_silent [OF a b c, of mem] by simp
qed

lemma on_wire_exchange_reply:
  assumes "on_wire_exchange env mem (Some p) w = Some (True, q, w')"
  shows "\<exists>reply. q = Some reply"
  using assms
  by (auto simp add: on_wire_exchange_def Let_def split: prod.splits if_splits option.splits)

lemma on_wire_exchange_written:
  assumes "on_wire_exchange env mem (Some p) w = Some (ok, q, w')"
  shows "written w' =
     written w @ (if fst (net_provider env w) \<and> beginPacket_ok env then [assemble_request p] else [])"
proof -
  obtain ok1 q1 w1 where pe: "packetExchange env (Some (assemble_request p)) TIMEOUT w = (ok1, q1, w1)"
    by (cases "packetExchange env (Some (assemble_request p)) TIMEOUT w") auto
  have w1: "written w1 =
     written w @ (if fst (net_provider env w) \<and> beginPacket_ok env then [assemble_request p] else [])"
    using packetExchange_written [of TIMEOUT env "assemble_request p" w] pe
    by (simp add: TIMEOUT_def)
  show ?thesis
  proof (cases ok1)
    case False
    with assms pe have "w' = w1" by (simp add: on_wire_exchange_def Let_def)
    with w1 show ?thesis by simp
  next
    case True
    with assms pe obtain r where "q1 = Some r" and "check_reply mem (xmt p) r w1 = Some (ok, w')"
      by (auto simp add: on_wire_exchange_def Let_def split: option.splits)
    then have "written w' = written w1" by (auto dest: check_reply_written)
    with w1 show ?thesis by simp
  qed
qed

subsection \<open>The request\<close>

lemma assemble_request_fields:
  "assemble_request p =
     \<lparr>li_vn_mode = 0x23, stratum = 0, ppoll = 0, precision = 0, rootdelay = 0, rootdisp = 0,
      refid = 0, reftime = 0, org = 0, rec = 0, xmt = xmt p\<rparr>"
  by (simp add: assemble_request_def zeroed_packet_def LEAP_NO_WARNING_def NTP_VERSION_4_def
        MODE_CLIENT_def)

text \<open>
  Claim C7. The request that \<open>on_wire_exchange\<close> assembles has every field zero except
  \<open>li_vn_mode\<close>, which is \<open>0x23\<close> (leap indicator 0, version 4, mode 3), and \<open>xmt\<close>, which
  is the caller's value; this is the packet handed to the datagram channel whenever the
  exchange gets as far as writing.
\<close>

theorem request_is_zero_except_header_and_xmt:
  "assemble_request p =
     \<lparr>li_vn_mode = 0x23, stratum = 0, ppoll = 0, precision = 0, rootdelay = 0, rootdisp = 0,
      refid = 0, reftime = 0, org = 0, rec = 0, xmt = xmt p\<rparr>
   \<and> leap_of 0x23 = 0 \<and> version_of 0x23 = 4 \<and> mode_of 0x23 = 3
   \<and> (on_wire_exchange env mem (Some p) w = Some (ok, q, w') \<longrightarrow>
        written w' =
          written w @ (if fst (net_provider env w) \<and> beginPacket_ok env
                       then [assemble_request p] else []))"
  using assemble_request_fields [of p] header_0x23 on_wire_exchange_written [of env mem p w ok q w']
  by blast

theorem request_is_zero_except_header_and_xmt_witness:
  "\<exists>w'. on_wire_exchange (answering_env 48 (good_reply 7)) data_ram_only
           (Some ((good_reply 9)\<lparr>xmt := 7\<rparr>)) fresh_world = Some (True, Some (good_reply 7), w')
        \<and> written w' =
            [\<lparr>li_vn_mode = 0x23, stratum = 0, ppoll = 0, precision = 0, rootdelay = 0,
              rootdisp = 0, refid = 0, reftime = 0, org = 0, rec = 0, xmt = 7\<rparr>]"
proof -
  define w' where
    "w' = fresh_world\<lparr>local_port := UDP_LOCAL_PORT,
            written := [assemble_request ((good_reply 9)\<lparr>xmt := 7\<rparr>)],
            packets_ended := 1, polls := 1, reads := 1, flushes := 1\<rparr>"
  have ex: "on_wire_exchange (answering_env 48 (good_reply 7)) data_ram_only
          (Some ((good_reply 9)\<lparr>xmt := 7\<rparr>)) fresh_world = Some (True, Some (good_reply 7), w')"
    unfolding on_wire_exchange_checks [OF packetExchange_answering] check_reply_fields w'_def
    by (simp add: good_reply_def zeroed_packet_def header_0x24)
  have "written w' =
          [\<lparr>li_vn_mode = 0x23, stratum = 0, ppoll = 0, precision = 0, rootdelay = 0,
            rootdisp = 0, refid = 0, reftime = 0, org = 0, rec = 0, xmt = 7\<rparr>]"
    using ex request_is_zero_except_header_and_xmt [of "(good_reply 9)\<lparr>xmt := 7\<rparr>"
        "answering_env 48 (good_reply 7)" data_ram_only fresh_world True "Some (good_reply 7)" w']
    by (simp add: fresh_world_def net_provider_def answering_env_def good_reply_def)
  with ex show ?thesis by blast
qed

subsection \<open>The order of the checks\<close>

text \<open>Once the transport has delivered a reply, the outcome of \<open>on_wire_exchange\<close> follows
  the first rule of the priority order that rejects the reply; the rule for stratum 0
  assigns its code only after \<open>printKissCode\<close> has returned.\<close>

lemma on_wire_exchange_first_failure:
  assumes "packetExchange env (Some (assemble_request p)) TIMEOUT w = (True, Some r, w1)"
  shows "on_wire_exchange env mem (Some p) w =
           (case spec_first_failure (xmt p) r of
              None \<Rightarrow> Some (True, Some r, w1)
            | Some e \<Rightarrow>
                if e = EAGAIN
                then map_option
                       (\<lambda>(valid_code, out). (False, Some r, fail_with EAGAIN (serial_print out w1)))
                       (printKissCode mem (refid r))
                else Some (False, Some r, fail_with e w1))
       \<and> (on_wire_exchange env mem (Some p) w = Some (ok, q, w') \<longrightarrow>
            (ok \<longleftrightarrow> spec_first_failure (xmt p) r = None)
            \<and> (\<not> ok \<longrightarrow> errno w' = spec_first_failure (xmt p) r))"
proof -
  have exact: "on_wire_exchange env mem (Some p) w =
           (case spec_first_failure (xmt p) r of
              None \<Rightarrow> Some (True, Some r, w1)
            | Some e \<Rightarrow>
                if e = EAGAIN
                then map_option
                       (\<lambda>(valid_code, out). (False, Some r, fail_with EAGAIN (serial_print out w1)))
                       (printKissCode mem (refid r))
                else Some (False, Some r, fail_with e w1))"
    unfolding on_wire_exchange_checks [OF assms] check_reply_spec
    by (auto split: option.splits simp add: option.map_comp comp_def case_prod_unfold)
  have "(ok \<longleftrightarrow> spec_first_failure (xmt p) r = None)
            \<and> (\<not> ok \<longrightarrow> errno w' = spec_first_failure (xmt p) r)"
    if "on_wire_exchange env mem (Some p) w = Some (ok, q, w')"
    using that unfolding exact
    by (auto simp add: fail_with_def split: option.splits if_splits)
  with exact show ?thesis by blast
qed

text \<open>A rule other than the one for stratum 0 is reported without reading memory.\<close>

lemma first_failure_reported:
  assumes "packetExchange env (Some (assemble_request p)) TIMEOUT w = (True, Some r, w1)"
    and "spec_first_failure (xmt p) r = Some e" and "e \<noteq> EAGAIN"
  shows "on_wire_exchange env mem (Some p) w = Some (False, Some r, fail_with e w1)"
  using on_wire_exchange_first_failure [OF assms(1), of mem] assms(2,3) by simp

text \<open>
  Claim C5. A reply that passes every other check but whose originate timestamp differs
  from the transmit timestamp the client sent is rejected with \<open>EBADMSG\<close>.
\<close>

theorem origin_mismatch_is_bad_message:
  assumes "packetExchange env (Some (assemble_request p)) TIMEOUT w = (True, Some r, w1)"
    and "mode_of (li_vn_mode r) = 4" and "version_of (li_vn_mode r) = 4"
    and "leap_of (li_vn_mode r) \<noteq> 3" and "stratum r \<le> 15" and "stratum r \<noteq> 0"
    and "org r \<noteq> xmt p"
  shows "on_wire_exchange env mem (Some p) w = Some (False, Some r, fail_with EBADMSG w1)
         \<and> errno (fail_with EBADMSG w1) = Some EBADMSG"
  unfolding on_wire_exchange_checks [OF assms(1)] check_reply_fields using assms(2-)
  by (simp add: fail_with_def not_less [symmetric])

theorem origin_mismatch_is_bad_message_witness:
  "on_wire_exchange (answering_env 48 ((good_reply 0x1122334455667788)\<lparr>org := 0x1122334455667788 + 1\<rparr>))
     data_ram_only (Some (zeroed_packet\<lparr>xmt := 0x1122334455667788\<rparr>)) fresh_world
   = Some (False, Some ((good_reply 0x1122334455667788)\<lparr>org := 0x1122334455667788 + 1\<rparr>),
           fail_with EBADMSG
             (fresh_world\<lparr>local_port := UDP_LOCAL_PORT,
                written := [assemble_request (zeroed_packet\<lparr>xmt := 0x1122334455667788\<rparr>)],
                packets_ended := 1, polls := 1, reads := 1, flushes := 1\<rparr>))"
  using origin_mismatch_is_bad_message [where mem = data_ram_only, OF packetExchange_answering,
      of "(good_reply 0x1122334455667788)\<lparr>org := 0x1122334455667788 + 1\<rparr>"
         "zeroed_packet\<lparr>xmt := 0x1122334455667788\<rparr>"]
  by (simp add: good_reply_def zeroed_packet_def header_0x24)

subsection \<open>Waiting for a reply that does not come\<close>

text \<open>
  Claim C6. When no datagram ever arrives, \<open>receive_server_reply\<close> polls exactly \<open>timeout\<close>
  times, waits 1 ms after each poll, and then fails with \<open>EPROTONOSUPPORT\<close>; through
  \<open>on_wire_exchange\<close>, after the request has been sent, that is 1024 polls. A datagram
  shorter than the packet fails with the same code.
\<close>

theorem no_reply_times_out:
  assumes "\<forall>k. parsePacket env k = 0" and "timeout \<noteq> 0"
    and "net_provider env w = (True, w1)"
    and "send_server_request env (Some (assemble_request p)) w1 = (True, w2)"
    and "parsePacket env2 (polls w) \<noteq> 0" and "parsePacket env2 (polls w) < 48"
  shows "receive_server_reply env (Some buf) timeout w =
           (False, Some buf,
            fail_with EPROTONOSUPPORT
              (w\<lparr>polls := polls w + unat timeout, delay_ms := delay_ms w + unat timeout\<rparr>))
       \<and> on_wire_exchange env mem (Some p) w =
           Some (False, Some (assemble_request p),
                 fail_with EPROTONOSUPPORT
                   (w2\<lparr>polls := polls w2 + 1024, delay_ms := delay_ms w2 + 1024\<rparr>))
       \<and> errno (fail_with EPROTONOSUPPORT w) = Some EPROTONOSUPPORT
       \<and> receive_server_reply env2 (Some buf) timeout w =
           (False, Some buf, fail_with EPROTONOSUPPORT (w\<lparr>polls := polls w + 1\<rparr>))"
proof -
  have "0 < unat timeout" using assms(2) by (simp add: unat_gt_0)
  then have "receive_server_reply env2 (Some buf) timeout w =
           (False, Some buf,
            fail_with EPROTONOSUPPORT (w\<lparr>polls := polls w + Suc 0, delay_ms := delay_ms w + 0\<rparr>))"
    using assms(5,6) by (intro receive_server_reply_short) (simp_all add: sizeof_ntp_packet_def)
  then show ?thesis
    using receive_server_reply_silent [OF assms(1,2), of buf w]
      on_wire_exchange_silent [OF assms(1,3,4), of mem]
    by (simp add: fail_with_def)
qed

theorem no_reply_times_out_witness:
  "receive_server_reply silent_env (Some zeroed_packet) 5 fresh_world =
           (False, Some zeroed_packet,
            fail_with EPROTONOSUPPORT (fresh_world\<lparr>polls := 5, delay_ms := 5\<rparr>))
   \<and> on_wire_exchange silent_env data_ram_only (Some zeroed_packet) fresh_world =
           Some (False, Some (assemble_request zeroed_packet),
                 fail_with EPROTONOSUPPORT
                   (fresh_world\<lparr>local_port := UDP_LOCAL_PORT,
                      written := [assemble_request zeroed_packet], packets_ended := 1,
                      polls := 1024, delay_ms := 1024\<rparr>))
   \<and> receive_server_reply (answering_env 20 zeroed_packet) (Some zeroed_packet) 5 fresh_world =
           (False, Some zeroed_packet, fail_with EPROTONOSUPPORT (fresh_world\<lparr>polls := 1\<rparr>))"
proof -
  have a: "\<forall>k. parsePacket silent_env k = 0" by (simp add: silent_env_polls)
  have b: "(5 :: 32 word) \<noteq> 0" by simp
  have c: "net_provider silent_env fresh_world = (True, fresh_world\<lparr>local_port := UDP_LOCAL_PORT\<rparr>)"
    unfolding silent_env_def by (rule net_provider_fresh)
  have d: "send_server_request silent_env (Some (assemble_request zeroed_packet))
             (fresh_world\<lparr>local_port := UDP_LOCAL_PORT\<rparr>) =
           (True, fresh_world\<lparr>local_port := UDP_LOCAL_PORT,
                    written := [assemble_request zeroed_packet], packets_ended := 1\<rparr>)"
    unfolding silent_env_def by (rule send_server_request_fresh)
  have e: "parsePacket (answering_env 20 zeroed_packet) (polls fresh_world) \<noteq> 0"
    by (simp add: answering_env_def)
  have f: "parsePacket (answering_env 20 zeroed_packet) (polls fresh_world) < 48"
    by (simp add: answering_env_def)
  show ?thesis
    using no_reply_times_out [OF a b c d e f, of zeroed_packet data_ram_only]
    by (simp add: fresh_world_def)
qed

subsection \<open>Kiss codes\<close>

lemma strcmp_eq_bytes:
  assumes "length bs = Suc (length c)"
    and "\<forall>i<length bs. mem (p + of_nat i) = Some (bs ! i)"
    and "NUL \<notin> set c"
  shows "strcmp_eq mem p c = Some (bs = c @ [NUL])"
  using assms
proof (induction c arbitrary: p bs)
  case Nil
  then obtain b where bs: "bs = [b]" by (cases bs) auto
  then have "0 < length bs" by simp
  then have "mem (p + of_nat 0) = Some (bs ! 0)" using Nil.prems(2) by blast
  then have "mem p = Some b" by (simp add: bs)
  with bs show ?case by auto
next
  case (Cons x xs)
  then obtain b bs' where bs: "bs = b # bs'" by (cases bs) auto
  have here: "mem p = Some b"
  proof -
    have "0 < length bs" by (simp add: bs)
    then have "mem (p + of_nat 0) = Some (bs ! 0)" using Cons.prems(2) by blast
    then show ?thesis by (simp add: bs)
  qed
  have rest: "\<forall>i<length bs'. mem (p + 1 + of_nat i) = Some (bs' ! i)"
  proof (intro allI impI)
    fix i assume "i < length bs'"
    then have "Suc i < length bs" by (simp add: bs)
    then have "mem (p + of_nat (Suc i)) = Some (bs ! Suc i)" using Cons.prems(2) by blast
    then show "mem (p + 1 + of_nat i) = Some (bs' ! i)" by (simp add: bs add.assoc)
  qed
  have "strcmp_eq mem (p + 1) xs = Some (bs' = xs @ [NUL])"
    using Cons.prems(1,3) rest by (intro Cons.IH) (simp_all add: bs)
  with here Cons.prems(3) show ?case by (auto simp add: bs)
qed

lemma find_code_bytes:
  assumes "\<forall>e\<in>set tbl. length bs = Suc (length (fst e)) \<and> NUL \<notin> set (fst e)"
    and "\<forall>i<length bs. mem (p + of_nat i) = Some (bs ! i)"
  shows "find_code mem p tbl = Some (find (\<lambda>e. bs = fst e @ [NUL]) tbl)"
  using assms(1)
proof (induction tbl)
  case Nil
  show ?case by simp
next
  case (Cons e es)
  have "strcmp_eq mem p (fst e) = Some (bs = fst e @ [NUL])"
    using Cons.prems assms(2) by (intro strcmp_eq_bytes) simp_all
  moreover have "find_code mem p es = Some (find (\<lambda>e. bs = fst e @ [NUL]) es)"
    using Cons.prems by (intro Cons.IH) (meson list.set_intros(2))
  ultimately show ?case by simp
qed

lemma strncpy_readable:
  assumes "\<forall>i<n. mem (p + of_nat i) \<noteq> None"
  shows "\<exists>cs. strncpy mem p n = Some cs"
  using assms
proof (induction n arbitrary: p)
  case 0
  show ?case by simp
next
  case (Suc n)
  have "mem (p + of_nat 0) \<noteq> None" using Suc.prems by blast
  then obtain b where here: "mem p = Some b" by auto
  have "\<forall>i<n. mem (p + 1 + of_nat i) \<noteq> None"
  proof (intro allI impI)
    fix i assume "i < n"
    then have "mem (p + of_nat (Suc i)) \<noteq> None" using Suc.prems by (metis Suc_less_eq)
    then show "mem (p + 1 + of_nat i) \<noteq> None" by (simp add: add.assoc)
  qed
  then obtain cs where "strncpy mem (p + 1) n = Some cs" using Suc.IH by blast
  with here show ?case by simp
qed

lemma kod_table_codes:
  "\<forall>e\<in>set kod_table. length (fst e) = 4 \<and> NUL \<notin> set (fst e)"
  by (simp add: kod_table_def NUL_def)

text \<open>When the five bytes from \<open>code\<close> on can be read, \<open>printKissCode\<close> returns, and its
  result is \<open>True\<close> exactly when the first four bytes are a code of the table and the
  fifth byte is NUL.\<close>

lemma printKissCode_five_bytes:
  assumes "length bs = 5" and "\<forall>i<5. mem (code + of_nat i) = Some (bs ! i)"
  shows "\<exists>out. printKissCode mem code = Some (\<exists>e\<in>set kod_table. bs = fst e @ [NUL], out)"
proof -
  have "\<forall>e\<in>set kod_table. length bs = Suc (length (fst e)) \<and> NUL \<notin> set (fst e)"
    using kod_table_codes assms(1) by simp
  moreover have "\<forall>i<length bs. mem (code + of_nat i) = Some (bs ! i)"
    using assms by simp
  ultimately have found: "find_code mem code kod_table = Some (find (\<lambda>e. bs = fst e @ [NUL]) kod_table)"
    by (rule find_code_bytes)
  have "\<forall>i<4. mem (code + of_nat i) \<noteq> None" using assms(2) by auto
  then obtain cs where copied: "strncpy mem code 4 = Some cs"
    using strncpy_readable by blast
  show ?thesis
  proof (cases "find (\<lambda>e. bs = fst e @ [NUL]) kod_table")
    case None
    then have "\<not> (\<exists>e\<in>set kod_table. bs = fst e @ [NUL])"
      unfolding find_None_iff by blast
    with None found copied show ?thesis by (simp add: printKissCode_def)
  next
    case (Some e)
    then have "\<exists>e\<in>set kod_table. bs = fst e @ [NUL]"
      unfolding find_Some_iff by (metis nth_mem)
    with Some found show ?thesis by (cases e) (simp add: printKissCode_def)
  qed
qed

lemma memory_with_byte0: "memory_with 0x3FFE8000 (c0 # cs) 0x3FFE8000 = Some c0"
  by (simp add: memory_with_def)

lemma memory_with_byte1: "memory_with 0x3FFE8000 (c0 # c1 # cs) 0x3FFE8001 = Some c1"
  by (simp add: memory_with_def)

lemma memory_with_byte2: "memory_with 0x3FFE8000 (c0 # c1 # c2 # cs) 0x3FFE8002 = Some c2"
  by (simp add: memory_with_def)

lemma memory_with_byte3: "memory_with 0x3FFE8000 (c0 # c1 # c2 # c3 # cs) 0x3FFE8003 = Some c3"
  by (simp add: memory_with_def)

lemma memory_with_byte4: "memory_with 0x3FFE8000 (c0 # c1 # c2 # c3 # c4 # cs) 0x3FFE8004 = Some c4"
  by (simp add: memory_with_def)

lemma kiss_code_with_terminator_is_recognised:
  "printKissCode (memory_with 0x3FFE8000 (''DENY'' @ [NUL])) 0x3FFE8000
     = Some (True, [Text kod_banner, Text ''-- Code: '', Text ''DENY'', Text ''-- Message: '',
                    Text ''Access denied by remote server.''])"
  by (simp add: printKissCode_def kod_table_def memory_with_byte0 memory_with_byte1
        memory_with_byte2 memory_with_byte3 memory_with_byte4 NUL_def c_string_def)

text \<open>
  Claim C8. The lookup should recognise a code by its first four bytes alone. With the
  bytes \<open>D\<close>, \<open>E\<close>, \<open>N\<close>, \<open>Y\<close> followed by a byte that is not NUL, \<open>printKissCode\<close> returns
  \<open>False\<close> and prints the code \<open>DENY\<close> as unknown.
\<close>

theorem kiss_code_without_terminator_is_unknown:
  "printKissCode (memory_with 0x3FFE8000 (''DENY'' @ [CHR 0x01])) 0x3FFE8000
     = Some (False, [Text kod_unknown_banner, Text ''-- Unknown code: '', Text ''DENY''])"
  by (simp add: printKissCode_def kod_table_def memory_with_byte0 memory_with_byte1
        memory_with_byte2 memory_with_byte3 memory_with_byte4 NUL_def c_string_def
        numeral_Bit0 [where ?'a = nat, symmetric] eval_nat_numeral)

lemma printKissCode_unreadable: "mem code = None \<Longrightarrow> printKissCode mem code = None"
  by (simp add: printKissCode_def kod_table_def)

lemma on_wire_exchange_kiss:
  assumes "packetExchange env (Some (assemble_request p)) TIMEOUT w = (True, Some r, w1)"
    and "mode_of (li_vn_mode r) = 4" and "version_of (li_vn_mode r) = 4"
    and "leap_of (li_vn_mode r) \<noteq> 3" and "stratum r = 0"
  shows "on_wire_exchange env mem (Some p) w =
           map_option (\<lambda>(valid_code, out). (False, Some r, fail_with EAGAIN (serial_print out w1)))
             (printKissCode mem (refid r))"
  unfolding on_wire_exchange_checks [OF assms(1)] check_reply_fields using assms(2-)
  by (simp add: option.map_comp comp_def case_prod_unfold)

text \<open>
  Claim C4. A reply with stratum 0 that passes the mode, version, leap and stratum-range
  checks should make the exchange fail with \<open>EAGAIN\<close>. The source hands the value of the
  reference-id field to \<open>printKissCode\<close> as the address to read from; for the code
  \<open>DENY\<close> that address is \<open>0x594E4544\<close>, and where it cannot be read the exchange does
  not return at all.
\<close>

theorem kiss_of_death_reply_faults:
  "on_wire_exchange (answering_env 48 (kod_reply 1)) data_ram_only
     (Some (zeroed_packet\<lparr>xmt := 1\<rparr>)) fresh_world = None"
proof -
  have "data_ram_only (refid (kod_reply 1)) = None"
    by (simp add: data_ram_only_def kod_reply_def)
  then have "printKissCode data_ram_only (refid (kod_reply 1)) = None"
    by (rule printKissCode_unreadable)
  moreover have "on_wire_exchange (answering_env 48 (kod_reply 1)) data_ram_only
     (Some (zeroed_packet\<lparr>xmt := 1\<rparr>)) fresh_world =
      map_option (\<lambda>(valid_code, out). (False, Some (kod_reply 1), fail_with EAGAIN (serial_print out
        (fresh_world\<lparr>local_port := UDP_LOCAL_PORT,
                written := [assemble_request (zeroed_packet\<lparr>xmt := 1\<rparr>)],
                packets_ended := 1, polls := 1, reads := 1, flushes := 1\<rparr>))))
             (printKissCode data_ram_only (refid (kod_reply 1)))"
    by (rule on_wire_exchange_kiss [OF packetExchange_answering])
       (simp_all add: kod_reply_def good_reply_def zeroed_packet_def header_0x24)
  ultimately show ?thesis by simp
qed

text \<open>
  Claim C1. In the priority order the rule for stratum 0 (\<open>EAGAIN\<close>) comes before the rule for
  the originate timestamp (\<open>EBADMSG\<close>), so a reply with stratum 0 and a foreign originate
  timestamp should be reported as \<open>EAGAIN\<close>. That rule is the first to reject the
  kiss-of-death reply below, but \<open>on_wire_exchange\<close> reads the kiss code from the address
  \<open>0x594E4544\<close> before it assigns \<open>errno\<close>; where that address cannot be read it reports
  nothing and does not return.
\<close>

theorem stratum_zero_rule_faults_before_reporting:
  "spec_first_failure 1 ((kod_reply 1)\<lparr>org := 2\<rparr>) = Some EAGAIN
   \<and> on_wire_exchange (answering_env 48 ((kod_reply 1)\<lparr>org := 2\<rparr>)) data_ram_only
       (Some (zeroed_packet\<lparr>xmt := 1\<rparr>)) fresh_world = None"
proof -
  have "data_ram_only (refid ((kod_reply 1)\<lparr>org := 2\<rparr>)) = None"
    by (simp add: data_ram_only_def kod_reply_def)
  then have "printKissCode data_ram_only (refid ((kod_reply 1)\<lparr>org := 2\<rparr>)) = None"
    by (rule printKissCode_unreadable)
  moreover have "on_wire_exchange (answering_env 48 ((kod_reply 1)\<lparr>org := 2\<rparr>)) data_ram_only
     (Some (zeroed_packet\<lparr>xmt := 1\<rparr>)) fresh_world =
      map_option (\<lambda>(valid_code, out). (False, Some ((kod_reply 1)\<lparr>org := 2\<rparr>),
        fail_with EAGAIN (serial_print out
        (fresh_world\<lparr>local_port := UDP_LOCAL_PORT,
                written := [assemble_request (zeroed_packet\<lparr>xmt := 1\<rparr>)],
                packets_ended := 1, polls := 1, reads := 1, flushes := 1\<rparr>))))
             (printKissCode data_ram_only (refid ((kod_reply 1)\<lparr>org := 2\<rparr>)))"
    by (rule on_wire_exchange_kiss [OF packetExchange_answering])
       (simp_all add: kod_reply_def good_reply_def zeroed_packet_def header_0x24)
  moreover have "spec_first_failure 1 ((kod_reply 1)\<lparr>org := 2\<rparr>) = Some EAGAIN"
    by (simp add: spec_first_failure_def spec_validation_order_def kod_reply_def good_reply_def
          zeroed_packet_def header_0x24)
  ultimately show ?thesis by simp
qed

section \<open>Properties of the double-precision arithmetic\<close>

subsection \<open>Exponent and rounding\<close>

lemma bit_length_pos: "0 < n \<Longrightarrow> 0 < bit_length n"
  by (subst bit_length.simps) simp

lemma bit_length_bounds:
  "0 < n \<Longrightarrow> 2 ^ (bit_length n - 1) \<le> n \<and> n < 2 ^ bit_length n"
proof (induction n rule: bit_length.induct)
  case (1 n)
  show ?case
  proof (cases "n = 1")
    case True
    have "bit_length 1 = Suc (bit_length 0)" by (subst bit_length.simps) simp
    also have "bit_length 0 = 0" by (subst bit_length.simps) simp
    finally show ?thesis using True by simp
  next
    case False
    with "1.prems" have m: "0 < n div 2" by simp
    define L where "L = bit_length (n div 2)"
    have IH: "2 ^ (L - 1) \<le> n div 2" "n div 2 < 2 ^ L"
      using "1.IH" "1.prems" m by (simp_all add: L_def)
    have Lpos: "0 < L" using m by (simp add: L_def bit_length_pos)
    have bl: "bit_length n = Suc L"
      using "1.prems" by (subst bit_length.simps) (simp add: L_def)
    have "(2::int) ^ L = 2 * 2 ^ (L - 1)"
      using Lpos by (cases L) simp_all
    then have lo: "2 ^ L \<le> n" using IH(1) by linarith
    have hi: "n < 2 * 2 ^ L" using IH(2) by linarith
    show ?thesis using lo hi by (simp add: bl)
  qed
qed

lemma exponent_of_bounds:
  assumes "0 < a"
  shows "2 powi exponent_of a \<le> a" and "a < 2 powi (exponent_of a + 1)"
proof -
  have "2 powi exponent_of a \<le> a \<and> a < 2 powi (exponent_of a + 1)"
  proof (cases "1 \<le> a")
    case True
    define n where "n = \<lfloor>a\<rfloor>"
    define L where "L = bit_length n"
    have npos: "0 < n" using True by (simp add: n_def)
    have b: "2 ^ (L - 1) \<le> n" "n < 2 ^ L"
      using bit_length_bounds [OF npos] by (simp_all add: L_def)
    have Lpos: "0 < L" using npos by (simp add: L_def bit_length_pos)
    have e: "exponent_of a = int L - 1"
      using True by (simp add: exponent_of_def n_def L_def)
    have p1: "(2::real) powi (int L - 1) = 2 ^ (L - 1)"
      using Lpos by (simp add: power_int_def nat_diff_distrib' of_nat_diff)
    have p2: "(2::real) powi (int L - 1 + 1) = 2 ^ L"
      by (simp add: power_int_def)
    have "(2::real) ^ (L - 1) = of_int (2 ^ (L - 1))" by simp
    also have "\<dots> \<le> of_int n" using b(1) by (simp only: of_int_le_iff)
    also have "\<dots> \<le> a" by (simp add: n_def)
    finally have lo: "(2::real) ^ (L - 1) \<le> a" .
    have "n + 1 \<le> 2 ^ L" using b(2) by simp
    then have "real_of_int (n + 1) \<le> real_of_int (2 ^ L)" by (simp only: of_int_le_iff)
    then have "real_of_int n + 1 \<le> 2 ^ L" by simp
    moreover have "a < of_int n + 1" unfolding n_def by linarith
    ultimately have hi: "a < (2::real) ^ L" by linarith
    show ?thesis unfolding e p1 p2 using lo hi by simp
  next
    case False
    then have a1: "a < 1" by simp
    define m where "m = \<lceil>1 / a\<rceil> - 1"
    define L where "L = bit_length m"
    have "1 < 1 / a" using assms a1 by simp
    then have "2 \<le> \<lceil>1 / a\<rceil>" by linarith
    then have mpos: "0 < m" by (simp add: m_def)
    have b: "2 ^ (L - 1) \<le> m" "m < 2 ^ L"
      using bit_length_bounds [OF mpos] by (simp_all add: L_def)
    have Lpos: "0 < L" using mpos by (simp add: L_def bit_length_pos)
    have e: "exponent_of a = - int L"
      using False by (simp add: exponent_of_def m_def L_def)
    have p1: "(2::real) powi (- int L) = 1 / 2 ^ L"
      by (simp add: power_int_minus field_simps)
    have p2: "(2::real) powi (- int L + 1) = 1 / 2 ^ (L - 1)"
    proof -
      have "- int L + 1 = - int (L - 1)" using Lpos by simp
      then show ?thesis by (simp only: power_int_minus power_int_of_nat inverse_eq_divide)
    qed
    have m_lt: "of_int m < 1 / a" unfolding m_def by linarith
    have m_ge: "1 / a \<le> of_int m + 1" unfolding m_def by (simp add: le_of_int_ceiling)
    have "m + 1 \<le> 2 ^ L" using b(2) by simp
    then have "real_of_int (m + 1) \<le> real_of_int (2 ^ L)" by (simp only: of_int_le_iff)
    then have "real_of_int m + 1 \<le> 2 ^ L" by simp
    with m_ge have "1 / a \<le> 2 ^ L" by linarith
    then have lo: "1 / 2 ^ L \<le> a"
      using assms by (simp add: field_simps)
    have "(2::real) ^ (L - 1) = of_int (2 ^ (L - 1))" by simp
    also have "\<dots> \<le> of_int m" using b(1) by (simp only: of_int_le_iff)
    also note m_lt
    finally have "(2::real) ^ (L - 1) < 1 / a" .
    then have hi: "a < 1 / 2 ^ (L - 1)"
      using assms by (simp add: field_simps)
    show ?thesis unfolding e p1 p2 using lo hi by simp
  qed
  then show "2 powi exponent_of a \<le> a" and "a < 2 powi (exponent_of a + 1)" by simp_all
qed

lemma pow2_less_D: "(2::real) powi m < 2 powi n \<Longrightarrow> m < n"
proof (rule ccontr)
  assume lt: "(2::real) powi m < 2 powi n" and "\<not> m < n"
  then have "n \<le> m" by simp
  then have "(2::real) powi n \<le> 2 powi m" by (rule power_int_increasing) simp
  with lt show False by simp
qed

lemma exponent_of_eq:
  assumes "2 powi e \<le> a" and "a < 2 powi (e + 1)"
  shows "exponent_of a = e"
proof -
  have "(0::real) < 2 powi e" by simp
  with assms(1) have pos: "0 < a" by linarith
  note b = exponent_of_bounds [OF pos]
  have "(2::real) powi exponent_of a < 2 powi (e + 1)" using b(1) assms(2) by linarith
  then have "exponent_of a < e + 1" by (rule pow2_less_D)
  moreover have "(2::real) powi e < 2 powi (exponent_of a + 1)" using b(2) assms(1) by linarith
  then have "e < exponent_of a + 1" by (rule pow2_less_D)
  ultimately show ?thesis by linarith
qed

lemma round_half_even_of_int: "round_half_even (of_int r) = r"
  by (simp add: round_half_even_def)

lemma round_half_even_le:
  assumes "q \<le> of_int N"
  shows "round_half_even q \<le> N"
proof (cases "q = of_int \<lfloor>q\<rfloor>")
  case True
  then have "round_half_even q = \<lfloor>q\<rfloor>" by (simp add: round_half_even_def)
  moreover have "\<lfloor>q\<rfloor> \<le> N" using assms by (simp add: floor_le_iff)
  ultimately show ?thesis by simp
next
  case False
  have "of_int \<lfloor>q\<rfloor> \<le> q" by simp
  with False have "of_int \<lfloor>q\<rfloor> < q" by linarith
  with assms have "real_of_int \<lfloor>q\<rfloor> < of_int N" by linarith
  then have "\<lfloor>q\<rfloor> < N" by (simp only: of_int_less_iff)
  moreover have "round_half_even q \<le> \<lfloor>q\<rfloor> + 1"
    by (simp add: round_half_even_def Let_def)
  ultimately show ?thesis by linarith
qed

lemma round_half_even_ge:
  assumes "of_int N \<le> q"
  shows "N \<le> round_half_even q"
proof -
  have "N \<le> \<lfloor>q\<rfloor>" using assms by (simp add: le_floor_iff)
  moreover have "\<lfloor>q\<rfloor> \<le> round_half_even q"
    by (simp add: round_half_even_def Let_def)
  ultimately show ?thesis by linarith
qed

lemma round_double_eq:
  assumes "2 powi e \<le> \<bar>x\<bar>" and "\<bar>x\<bar> < 2 powi (e + 1)"
  shows "round_double x =
     (let ulp = 2 powi (max e (- 1022) - 52);
          y = of_int (round_half_even (x / ulp)) * ulp
      in if 2 powi 1024 \<le> \<bar>y\<bar> then None else Some y)"
proof -
  have "(0::real) < 2 powi e" by simp
  with assms(1) have "0 < \<bar>x\<bar>" by linarith
  then have "x \<noteq> 0" by simp
  moreover have "exponent_of \<bar>x\<bar> = e" using assms by (rule exponent_of_eq)
  ultimately show ?thesis by (simp add: round_double_def Let_def)
qed

text \<open>A value with a 53-bit significand in the normal range is its own rounding.\<close>

lemma round_double_exact:
  assumes "2 ^ 52 \<le> \<bar>r\<bar>" and "\<bar>r\<bar> < 2 ^ 53" and "- 1022 \<le> e" and "e \<le> 1023"
  shows "round_double (of_int r * 2 powi (e - 52)) = Some (of_int r * 2 powi (e - 52))"
proof -
  define x where "x = real_of_int r * 2 powi (e - 52)"
  have ulp: "(0::real) < 2 powi (e - 52)" by simp
  have ax: "\<bar>x\<bar> = of_int \<bar>r\<bar> * 2 powi (e - 52)"
    by (simp add: x_def abs_mult)
  have split: "(2::real) powi e = 2 ^ 52 * 2 powi (e - 52)"
    "(2::real) powi (e + 1) = 2 ^ 53 * 2 powi (e - 52)"
    by (simp_all add: power_int_diff power_int_add)
  have "real_of_int (2 ^ 52) \<le> of_int \<bar>r\<bar>" using assms(1) by (simp only: of_int_le_iff)
  then have r1: "(2::real) ^ 52 \<le> of_int \<bar>r\<bar>" by simp
  have "real_of_int \<bar>r\<bar> < of_int (2 ^ 53)" using assms(2) by (simp only: of_int_less_iff)
  then have r2: "real_of_int \<bar>r\<bar> < 2 ^ 53" by simp
  have lo: "2 powi e \<le> \<bar>x\<bar>"
    unfolding ax split using r1 ulp by (intro mult_right_mono) simp_all
  have hi: "\<bar>x\<bar> < 2 powi (e + 1)"
    unfolding ax split using r2 ulp by (intro mult_strict_right_mono) simp_all
  have m: "max e (- 1022) = e" using assms(3) by simp
  have q: "x / 2 powi (e - 52) = of_int r" by (simp add: x_def)
  have "(2::real) powi (e + 1) \<le> 2 powi 1024"
    using assms(4) by (intro power_int_increasing) simp_all
  with hi have fin: "\<not> 2 powi 1024 \<le> \<bar>x\<bar>" by linarith
  have "round_double x = Some x"
    unfolding round_double_eq [OF lo hi] Let_def m q round_half_even_of_int
    using fin by (simp add: x_def)
  then show ?thesis by (simp only: x_def)
qed

text \<open>Rounding never leaves a bound that is a power of two below the overflow
  threshold.\<close>

lemma round_double_bounded:
  assumes "\<bar>x\<bar> \<le> 2 ^ k" and "k \<le> 1023"
  shows "\<exists>y. round_double x = Some y \<and> \<bar>y\<bar> \<le> 2 ^ k"
proof (cases "x = 0")
  case True
  then show ?thesis by (simp add: round_double_def)
next
  case False
  then have pos: "0 < \<bar>x\<bar>" by simp
  define e where "e = max (exponent_of \<bar>x\<bar>) (- 1022)"
  define ulp :: real where "ulp = 2 powi (e - 52)"
  define r where "r = round_half_even (x / ulp)"
  define N :: int where "N = 2 ^ nat (int k - e + 52)"
  have ulp_pos: "0 < ulp" by (simp add: ulp_def)
  have "(2::real) powi exponent_of \<bar>x\<bar> \<le> 2 powi int k"
    using exponent_of_bounds(1) [OF pos] assms(1) by (simp add: power_int_of_nat)
  then have "exponent_of \<bar>x\<bar> \<le> int k"
    by (metis not_less power_int_strict_increasing one_less_numeral_iff semiring_norm(76))
  then have ek: "e \<le> int k" by (simp add: e_def)
  have Nulp: "of_int N * ulp = (2::real) ^ k"
  proof -
    have "real_of_int N = 2 powi (int k - e + 52)"
      using ek by (simp add: N_def power_int_def)
    moreover have "(2::real) powi (int k - e + 52 + (e - 52))
                     = 2 powi (int k - e + 52) * 2 powi (e - 52)"
      by (rule power_int_add) simp
    ultimately have "of_int N * ulp = (2::real) powi (int k - e + 52 + (e - 52))"
      unfolding ulp_def by simp
    then show ?thesis by (simp add: power_int_of_nat)
  qed
  have "x / ulp \<le> of_int N"
    using assms(1) ulp_pos Nulp by (simp add: pos_divide_le_eq)
  then have r_le: "r \<le> N" unfolding r_def by (rule round_half_even_le)
  have "of_int (- N) \<le> x / ulp"
    using assms(1) ulp_pos Nulp by (simp add: pos_le_divide_eq)
  then have r_ge: "- N \<le> r" unfolding r_def by (rule round_half_even_ge)
  have "\<bar>r\<bar> \<le> N" using r_le r_ge by linarith
  then have "real_of_int \<bar>r\<bar> \<le> of_int N" by (simp only: of_int_le_iff)
  then have "real_of_int \<bar>r\<bar> * ulp \<le> of_int N * ulp"
    using ulp_pos by (intro mult_right_mono) simp_all
  then have y: "\<bar>of_int r * ulp\<bar> \<le> 2 ^ k"
    using ulp_pos by (simp add: abs_mult Nulp)
  have "(2::real) ^ k < 2 powi 1024"
  proof -
    have "(2::real) powi int k < 2 powi 1024"
      using assms(2) by (intro power_int_strict_increasing) simp_all
    then show ?thesis by (simp add: power_int_of_nat)
  qed
  with y have fin: "\<not> 2 powi 1024 \<le> \<bar>of_int r * ulp\<bar>" by linarith
  have "round_double x = Some (of_int r * ulp)"
    using False fin by (simp add: round_double_def Let_def e_def [symmetric] ulp_def [symmetric] r_def [symmetric])
  with y show ?thesis by simp
qed

subsection \<open>The nearest double and the rounding error\<close>

lemma round_half_even_unique:
  assumes "of_int r - 1/2 < q" and "q < of_int r + 1/2"
  shows "round_half_even q = r"
proof (cases "of_int r \<le> q")
  case True
  then have "r \<le> \<lfloor>q\<rfloor>" by (simp add: le_floor_iff)
  moreover have "q < of_int (r + 1)" using assms(2) by simp
  then have "\<lfloor>q\<rfloor> < r + 1" by (simp only: floor_less_iff)
  ultimately have f: "\<lfloor>q\<rfloor> = r" by linarith
  with assms(2) show ?thesis by (simp add: round_half_even_def Let_def)
next
  case False
  then have "q < of_int r" by simp
  then have "\<lfloor>q\<rfloor> < r" by (simp only: floor_less_iff)
  moreover have "of_int (r - 1) \<le> q" using assms(1) by simp
  then have "r - 1 \<le> \<lfloor>q\<rfloor>" by (simp only: le_floor_iff)
  ultimately have f: "\<lfloor>q\<rfloor> = r - 1" by linarith
  with assms(1) show ?thesis by (simp add: round_half_even_def Let_def)
qed


text \<open>The double nearest to \<open>x\<close>, read off from \<open>x\<close> scaled to a 53-bit integer.\<close>

lemma round_double_nearest:
  fixes x :: real and r :: int and n :: nat
  assumes "2 ^ 52 \<le> \<bar>x\<bar> * 2 ^ n" and "\<bar>x\<bar> * 2 ^ n < 2 ^ 53" and "n \<le> 1074"
    and "of_int r - 1/2 < x * 2 ^ n" and "x * 2 ^ n < of_int r + 1/2"
  shows "round_double x = Some (of_int r / 2 ^ n)"
proof -
  define e where "e = 52 - int n"
  have ulp: "(2::real) powi (e - 52) = 1 / 2 ^ n"
    by (simp add: e_def power_int_minus power_int_of_nat divide_simps)
  have "(2::real) powi e = 2 powi 52 * 2 powi (- int n)"
    unfolding e_def by (simp add: power_int_diff power_int_minus divide_simps)
  then have pe: "(2::real) powi e = 2 ^ 52 / 2 ^ n"
    by (simp add: power_int_minus divide_simps)
  have "(2::real) powi (e + 1) = 2 powi e * 2" by (simp add: power_int_add)
  then have pe1: "(2::real) powi (e + 1) = 2 ^ 53 / 2 ^ n" by (simp add: pe)
  have lo: "2 powi e \<le> \<bar>x\<bar>" unfolding pe using assms(1) by (simp add: pos_divide_le_eq)
  have hi: "\<bar>x\<bar> < 2 powi (e + 1)" unfolding pe1 using assms(2) by (simp add: pos_less_divide_eq)
  have m: "max e (- 1022) = e" using assms(3) by (simp add: e_def)
  have q: "x / (1 / 2 ^ n) = x * 2 ^ n" by simp
  have rhe: "round_half_even (x * 2 ^ n) = r" using assms(4,5) by (rule round_half_even_unique)
  have "x * 2 ^ n \<le> \<bar>x\<bar> * 2 ^ n" by (intro mult_right_mono) simp_all
  with assms(2,4) have "real_of_int r < 2 ^ 53 + 1" by linarith
  then have "real_of_int r < of_int (2 ^ 53 + 1)" by simp
  then have r_hi: "r \<le> 2 ^ 53" by (simp only: of_int_less_iff)
  have "- (\<bar>x\<bar> * 2 ^ n) \<le> x * 2 ^ n"
  proof -
    have "- \<bar>x\<bar> * 2 ^ n \<le> x * 2 ^ n" by (intro mult_right_mono) simp_all
    then show ?thesis by simp
  qed
  with assms(2,5) have "- (2 ^ 53 + 1) < real_of_int r" by linarith
  then have "real_of_int (- (2 ^ 53 + 1)) < of_int r" by simp
  then have r_lo: "- (2 ^ 53) \<le> r" by (simp only: of_int_less_iff)
  from r_hi r_lo have "\<bar>r\<bar> \<le> 2 ^ 53" by linarith
  then have "real_of_int \<bar>r\<bar> \<le> real_of_int (2 ^ 53)" by (simp only: of_int_le_iff)
  then have ar: "\<bar>real_of_int r\<bar> \<le> 2 ^ 53" by simp
  have "\<bar>real_of_int r / 2 ^ n\<bar> = \<bar>real_of_int r\<bar> / 2 ^ n" by simp
  also have "\<dots> \<le> \<bar>real_of_int r\<bar> / 1"
    by (intro divide_left_mono) simp_all
  also have "\<dots> \<le> 2 ^ 53" using ar by simp
  also have "(2::real) ^ 53 < 2 powi 1024"
  proof -
    have "(2::real) powi 53 < 2 powi 1024" by (intro power_int_strict_increasing) simp_all
    then show ?thesis by simp
  qed
  finally have fin: "\<not> 2 powi 1024 \<le> \<bar>real_of_int r / 2 ^ n\<bar>" by simp
  show ?thesis
    unfolding round_double_eq [OF lo hi] Let_def m ulp q rhe using fin by simp
qed





subsection \<open>Values that are doubles as they stand\<close>

text \<open>A dyadic rational with a numerator below \<open>2 ^ 53\<close> is a double.\<close>

lemma round_double_dyadic:
  fixes k :: int and m :: nat
  assumes "0 < k" and "k < 2 ^ 53" and "m \<le> 1000"
  shows "round_double (of_int k / 2 ^ m) = Some (of_int k / 2 ^ m)"
proof -
  define L where "L = bit_length k"
  have Lpos: "0 < L" unfolding L_def using assms(1) by (rule bit_length_pos)
  have lo: "2 ^ (L - 1) \<le> k" and hi: "k < 2 ^ L"
    using bit_length_bounds [OF assms(1)] by (simp_all add: L_def)
  from lo assms(2) have "(2::int) ^ (L - 1) < 2 ^ 53" by linarith
  then have "L - 1 < 53" by (rule power_less_imp_less_exp [rotated]) simp
  then have L53: "L \<le> 53" by simp
  define s where "s = 53 - L"
  define r where "r = k * 2 ^ s"
  have "(2::int) ^ 52 = 2 ^ (L - 1) * 2 ^ s"
    using Lpos L53 by (simp add: s_def power_add [symmetric])
  also have "\<dots> \<le> k * 2 ^ s" using lo by (intro mult_right_mono) simp_all
  finally have r_lo: "2 ^ 52 \<le> r" by (simp add: r_def)
  have "k * 2 ^ s < 2 ^ L * 2 ^ s" using hi by (intro mult_strict_right_mono) simp_all
  also have "(2::int) ^ L * 2 ^ s = 2 ^ 53"
    using L53 by (simp add: s_def power_add [symmetric])
  finally have r_hi: "r < 2 ^ 53" by (simp add: r_def)
  define x :: real where "x = of_int k / 2 ^ m"
  have scaled: "x * 2 ^ (m + s) = of_int r"
    by (simp add: x_def r_def power_add)
  have xpos: "0 < x" using assms(1) by (simp add: x_def)
  have "real_of_int (2 ^ 52) \<le> of_int r" using r_lo by (simp only: of_int_le_iff)
  then have a: "2 ^ 52 \<le> \<bar>x\<bar> * 2 ^ (m + s)" using xpos scaled by simp
  have "real_of_int r < of_int (2 ^ 53)" using r_hi by (simp only: of_int_less_iff)
  then have b: "\<bar>x\<bar> * 2 ^ (m + s) < 2 ^ 53" using xpos scaled by simp
  have c: "m + s \<le> 1074" using assms(3) by (simp add: s_def)
  have "round_double x = Some (of_int r / 2 ^ (m + s))"
    using a b c by (rule round_double_nearest) (simp_all add: scaled)
  also have "of_int r / 2 ^ (m + s) = x"
    using scaled by (simp add: field_simps)
  finally show ?thesis by (simp only: x_def)
qed

text \<open>The conversion of a 32-bit integer to \<^verbatim>\<open>double\<close> is exact, and the value of
  \<open>getFraction\<close> is a double.\<close>

lemma double_of_uint32_exact: "double_of_int (uint (v :: 32 word)) = Some (of_int (uint v))"
proof (cases "uint v = 0")
  case True
  then show ?thesis by (simp add: double_of_int_def round_double_def)
next
  case False
  have "0 \<le> uint v" by simp
  with False have pos: "0 < uint v" by linarith
  have "uint v < 2 ^ 32" using uint_lt2p [of v] by simp
  also have "(2::int) ^ 32 < 2 ^ 53" by simp
  finally have "uint v < 2 ^ 53" .
  from round_double_dyadic [OF pos this, of 0] show ?thesis
    by (simp only: double_of_int_def power_0 div_by_1) 
qed

lemma fraction_is_double:
  "round_double (real (unat (v :: 32 word)) / FRAC) = Some (real (unat v) / FRAC)"
proof (cases "uint v = 0")
  case True
  then have "unat v = 0" by (simp add: unat_eq_nat_uint)
  then show ?thesis by (simp add: round_double_def)
next
  case False
  have "0 \<le> uint v" by simp
  with False have pos: "0 < uint v" by linarith
  have "uint v < 2 ^ 32" using uint_lt2p [of v] by simp
  also have "(2::int) ^ 32 < 2 ^ 53" by simp
  finally have "uint v < 2 ^ 53" .
  from round_double_dyadic [OF pos this, of 32]
  have "round_double (real_of_int (uint v) / 2 ^ 32) = Some (real_of_int (uint v) / 2 ^ 32)"
    by simp
  moreover have "real (unat v) = real_of_int (uint v)"
    by (simp only: unat_eq_nat_uint of_nat_nat [OF \<open>0 \<le> uint v\<close>])
  moreover have "FRAC = 2 ^ 32" by (simp add: FRAC_def)
  ultimately show ?thesis by (simp only:)
qed

lemma getFraction64_is_double:
  "round_double (getFraction64 bo ts) = Some (getFraction64 bo ts)"
  by (simp only: getFraction64_def Let_def fraction_is_double split: byte_order.split if_split)

subsection \<open>Bounds through the operations\<close>

lemma bounded_byI: "\<bar>x\<bar> \<le> 2 ^ k \<Longrightarrow> bounded_by k (Some x)"
  by (simp add: bounded_by_def)

lemma bounded_byE:
  assumes "bounded_by k a"
  obtains x where "a = Some x" and "\<bar>x\<bar> \<le> 2 ^ k"
  using assms by (cases a) (simp_all add: bounded_by_def)

lemma bounded_by_mono:
  assumes "bounded_by j a" and "j \<le> k"
  shows "bounded_by k a"
proof -
  from assms(1) obtain x where x: "a = Some x" "\<bar>x\<bar> \<le> 2 ^ j" by (rule bounded_byE)
  have "(2::real) ^ j \<le> 2 ^ k" using assms(2) by (intro power_increasing) simp_all
  with x(2) have "\<bar>x\<bar> \<le> 2 ^ k" by (rule order_trans)
  then show ?thesis by (simp add: bounded_by_def x(1))
qed

lemma round_double_bounded_by:
  "\<bar>x\<bar> \<le> 2 ^ k \<Longrightarrow> k \<le> 1023 \<Longrightarrow> bounded_by k (round_double x)"
  using round_double_bounded [of x k] by (auto simp add: bounded_by_def)

lemma dadd_bounded:
  assumes "bounded_by k a" and "bounded_by k b" and "k < 1023"
  shows "bounded_by (Suc k) (dadd a b)"
proof -
  from assms(1) obtain x where x: "a = Some x" "\<bar>x\<bar> \<le> 2 ^ k" by (rule bounded_byE)
  from assms(2) obtain y where y: "b = Some y" "\<bar>y\<bar> \<le> 2 ^ k" by (rule bounded_byE)
  have "\<bar>x + y\<bar> \<le> 2 ^ Suc k" using x(2) y(2) by simp
  then have "bounded_by (Suc k) (round_double (x + y))"
    using assms(3) by (intro round_double_bounded_by) simp_all
  then show ?thesis by (simp add: dadd_def x(1) y(1))
qed

lemma dsub_bounded:
  assumes "bounded_by k a" and "bounded_by k b" and "k < 1023"
  shows "bounded_by (Suc k) (dsub a b)"
proof -
  from assms(1) obtain x where x: "a = Some x" "\<bar>x\<bar> \<le> 2 ^ k" by (rule bounded_byE)
  from assms(2) obtain y where y: "b = Some y" "\<bar>y\<bar> \<le> 2 ^ k" by (rule bounded_byE)
  have "\<bar>x - y\<bar> \<le> 2 ^ Suc k" using x(2) y(2) by simp
  then have "bounded_by (Suc k) (round_double (x - y))"
    using assms(3) by (intro round_double_bounded_by) simp_all
  then show ?thesis by (simp add: dsub_def x(1) y(1))
qed

lemma dmul_bounded:
  assumes "bounded_by j a" and "bounded_by k b" and "j + k \<le> 1023"
  shows "bounded_by (j + k) (dmul a b)"
proof -
  from assms(1) obtain x where x: "a = Some x" "\<bar>x\<bar> \<le> 2 ^ j" by (rule bounded_byE)
  from assms(2) obtain y where y: "b = Some y" "\<bar>y\<bar> \<le> 2 ^ k" by (rule bounded_byE)
  have "\<bar>x\<bar> * \<bar>y\<bar> \<le> 2 ^ j * 2 ^ k"
    using x(2) y(2) by (intro mult_mono) simp_all
  then have "\<bar>x * y\<bar> \<le> 2 ^ (j + k)" by (simp add: abs_mult power_add)
  then have "bounded_by (j + k) (round_double (x * y))"
    using assms(3) by (rule round_double_bounded_by)
  then show ?thesis by (simp add: dmul_def x(1) y(1))
qed

lemma ddiv_bounded:
  assumes "bounded_by k a" and "1 \<le> \<bar>y\<bar>" and "k \<le> 1023"
  shows "bounded_by k (ddiv a y)"
proof -
  from assms(1) obtain x where x: "a = Some x" "\<bar>x\<bar> \<le> 2 ^ k" by (rule bounded_byE)
  have "y \<noteq> 0" using assms(2) by auto
  have "\<bar>x\<bar> / \<bar>y\<bar> \<le> \<bar>x\<bar> / 1"
    using assms(2) by (intro divide_left_mono) simp_all
  then have "\<bar>x / y\<bar> \<le> 2 ^ k" using x(2) by simp
  then have "bounded_by k (round_double (x / y))"
    using assms(3) by (rule round_double_bounded_by)
  then show ?thesis using \<open>y \<noteq> 0\<close> by (simp add: ddiv_def x(1))
qed

lemma double_of_uint32_bounded: "bounded_by 32 (double_of_int (uint (v :: 32 word)))"
proof -
  have "uint v < 2 ^ 32" using uint_lt2p [of v] by simp
  then have "real_of_int (uint v) < real_of_int (2 ^ 32)" by (simp only: of_int_less_iff)
  also have "real_of_int (2 ^ 32) = 2 ^ 32" by simp
  finally have lt: "real_of_int (uint v) < 2 ^ 32" .
  have "0 \<le> uint v" by simp
  then have "0 \<le> real_of_int (uint v)" by (simp only: of_int_0_le_iff)
  with lt have "\<bar>real_of_int (uint v)\<bar> \<le> 2 ^ 32" by linarith
  then show ?thesis unfolding double_of_int_def by (intro round_double_bounded_by) simp_all
qed

lemma fraction_below_one: "0 \<le> real (unat (v :: 32 word)) / FRAC \<and> real (unat v) / FRAC < 1"
proof -
  have "unat v < 2 ^ 32" using unsigned_less [of v] by simp
  then have "real (unat v) < real (2 ^ 32)" by (simp only: of_nat_less_iff)
  also have "real (2 ^ 32) = 4294967296" by simp
  finally have lt: "real (unat v) < 4294967296" .
  have nn: "0 \<le> real (unat v)" by (rule of_nat_0_le_iff)
  have "0 \<le> real (unat v) / 4294967296" using nn by (rule divide_nonneg_pos) simp
  moreover have "real (unat v) / 4294967296 < 1" using lt by (simp only: divide_less_eq_1_pos)
  ultimately show ?thesis unfolding FRAC_def by (rule conjI)
qed

lemma getFraction64_bounded: "bounded_by 0 (Some (getFraction64 bo ts))"
proof -
  have "\<bar>real (unat v) / FRAC\<bar> \<le> 1" for v :: "32 word"
    using fraction_below_one [of v] by linarith
  then show ?thesis
    by (simp add: bounded_by_def getFraction64_def Let_def)
qed

lemma double_of_int_bounded:
  assumes "\<bar>n\<bar> \<le> 2 ^ k" and "k \<le> 1023"
  shows "bounded_by k (double_of_int n)"
proof -
  from assms(1) have "real_of_int \<bar>n\<bar> \<le> real_of_int (2 ^ k)" by (simp only: of_int_le_iff)
  then have "\<bar>real_of_int n\<bar> \<le> 2 ^ k" by simp
  then show ?thesis unfolding double_of_int_def using assms(2) by (rule round_double_bounded_by)
qed

lemma trunc_toward_zero_rest: "\<bar>u - of_int (trunc_toward_zero u)\<bar> \<le> 1"
  unfolding trunc_toward_zero_def by (simp split: if_splits) linarith

lemma unix_time_finite:
  assumes s1: "bounded_by 32 s1" and s2: "bounded_by 32 s2" and s3: "bounded_by 32 s3"
    and f2: "bounded_by 0 f2" and f3: "bounded_by 0 f3"
    and md: "bounded_by 32 md" and el: "bounded_by 32 el"
    and nt: "bounded_by 32 nt" and era: "bounded_by 32 era"
  shows "bounded_by 40
           (dadd (dsub (dadd (dadd (Some 1)
                                (clock_offset (dadd s1 (Some 0)) (dadd s2 f2) (dadd s3 f3)
                                   (dadd (dadd s1 (Some 0)) (ddiv md 1000))))
                          nt) era)
              (ddiv el 1000))"
proof -
  have zero: "bounded_by 32 (Some 0)" and one: "bounded_by 36 (Some 1)"
    by (simp_all add: bounded_by_def)
  have t1d: "bounded_by 33 (dadd s1 (Some 0))"
    using dadd_bounded [OF s1 zero] by simp
  have "bounded_by 32 (ddiv md 1000)" using md by (rule ddiv_bounded) simp_all
  then have "bounded_by 33 (ddiv md 1000)" by (rule bounded_by_mono) simp
  with t1d have t4d: "bounded_by 34 (dadd (dadd s1 (Some 0)) (ddiv md 1000))"
    using dadd_bounded [of 33] by simp
  have "bounded_by 32 f2" using f2 by (rule bounded_by_mono) simp
  with s2 have "bounded_by 33 (dadd s2 f2)" using dadd_bounded [of 32] by simp
  then have t2d: "bounded_by 34 (dadd s2 f2)" by (rule bounded_by_mono) simp
  have "bounded_by 32 f3" using f3 by (rule bounded_by_mono) simp
  with s3 have "bounded_by 33 (dadd s3 f3)" using dadd_bounded [of 32] by simp
  then have t3d: "bounded_by 34 (dadd s3 f3)" by (rule bounded_by_mono) simp
  have t1d': "bounded_by 34 (dadd s1 (Some 0))" using t1d by (rule bounded_by_mono) simp
  have a: "bounded_by 35 (dsub (dadd s2 f2) (dadd s1 (Some 0)))"
    using dsub_bounded [OF t2d t1d'] by simp
  have b: "bounded_by 35 (dsub (dadd s3 f3) (dadd (dadd s1 (Some 0)) (ddiv md 1000)))"
    using dsub_bounded [OF t3d t4d] by simp
  have "bounded_by 36 (dadd (dsub (dadd s2 f2) (dadd s1 (Some 0)))
                          (dsub (dadd s3 f3) (dadd (dadd s1 (Some 0)) (ddiv md 1000))))"
    using dadd_bounded [OF a b] by simp
  then have offset: "bounded_by 36 (clock_offset (dadd s1 (Some 0)) (dadd s2 f2) (dadd s3 f3)
                                     (dadd (dadd s1 (Some 0)) (ddiv md 1000)))"
    unfolding clock_offset_def by (rule ddiv_bounded) simp_all
  note c = dadd_bounded [OF one offset]
  have c': "bounded_by 37 (dadd (Some 1) (clock_offset (dadd s1 (Some 0)) (dadd s2 f2) (dadd s3 f3)
                                     (dadd (dadd s1 (Some 0)) (ddiv md 1000))))"
    using c by simp
  have nt': "bounded_by 37 nt" using nt by (rule bounded_by_mono) simp
  note d = dadd_bounded [OF c' nt']
  have d': "bounded_by 38 (dadd (dadd (Some 1) (clock_offset (dadd s1 (Some 0)) (dadd s2 f2)
              (dadd s3 f3) (dadd (dadd s1 (Some 0)) (ddiv md 1000)))) nt)"
    using d by simp
  have era': "bounded_by 38 era" using era by (rule bounded_by_mono) simp
  note e = dsub_bounded [OF d' era']
  have e': "bounded_by 39 (dsub (dadd (dadd (Some 1) (clock_offset (dadd s1 (Some 0)) (dadd s2 f2)
              (dadd s3 f3) (dadd (dadd s1 (Some 0)) (ddiv md 1000)))) nt) era)"
    using e by simp
  have "bounded_by 32 (ddiv el 1000)" using el by (rule ddiv_bounded) simp_all
  then have el': "bounded_by 39 (ddiv el 1000)" by (rule bounded_by_mono) simp
  show ?thesis using dadd_bounded [OF e' el'] by simp
qed

lemma sync_delay_finite:
  "bounded_by 11 (dsub (Some 1000) (dmul (Some (u - of_int (trunc_toward_zero u))) (Some 1000)))"
proof -
  have a: "bounded_by 0 (Some (u - of_int (trunc_toward_zero u)))"
    using trunc_toward_zero_rest [of u] by (simp add: bounded_by_def)
  have b: "bounded_by 10 (Some 1000)" by (simp add: bounded_by_def)
  have c: "bounded_by 10 (dmul (Some (u - of_int (trunc_toward_zero u))) (Some 1000))"
    using dmul_bounded [OF a b] by simp
  show ?thesis using dsub_bounded [OF b c] by simp
qed

section \<open>Properties of \<^verbatim>\<open>NTPClient::time\<close>\<close>

subsection \<open>The result of \<open>time\<close>\<close>

lemma time_failed:
  assumes "on_wire_exchange env mem
             (Some (uninit\<lparr>xmt := generateTstamp64 bo
                                     (word_of_int (ERA_OFFSET0_1_JAN_1970 + 1637244065)) 0\<rparr>))
             (snd (read_millis env w)) = Some (False, q, w2)"
  shows "time bo env mem uninit tloc w = Some (- 1, tloc, lastErrorString w2)"
  using assms by (simp add: time_def Let_def case_prod_unfold)

lemma time_succeeded:
  fixes bo env mem uninit w reply w2 u s
  defines "t1 \<equiv> generateTstamp64 bo (word_of_int (ERA_OFFSET0_1_JAN_1970 + 1637244065)) 0"
  defines "t1d \<equiv> dadd (double_of_int (uint (getSeconds64 bo t1))) (Some 0)"
  defines "t2d \<equiv> dadd (double_of_int (uint (getSeconds64 bo (rec reply))))
                    (Some (getFraction64 bo (rec reply)))"
  defines "t3d \<equiv> dadd (double_of_int (uint (getSeconds64 bo (xmt reply))))
                    (Some (getFraction64 bo (xmt reply)))"
  defines "t4d \<equiv> dadd t1d (ddiv (double_of_int
                    (uint (millis env (millis_calls w2) - millis env (millis_calls w)))) 1000)"
  defines "elapsed \<equiv> ddiv (double_of_int (uint (millis env (Suc (Suc (millis_calls w2)))
                                                - millis env (Suc (millis_calls w2))))) 1000"
  assumes "on_wire_exchange env mem (Some (uninit\<lparr>xmt := t1\<rparr>)) (snd (read_millis env w))
             = Some (True, Some reply, w2)"
    and "dadd (dsub (dadd (dadd (Some 1) (clock_offset t1d t2d t3d t4d))
                       (double_of_int (ERA_OFFSET0_1_JAN_1970 + 1637244065)))
                 (double_of_int ERA_OFFSET0_1_JAN_1970)) elapsed = Some u"
    and "dsub (Some 1000) (dmul (Some (u - of_int (trunc_toward_zero u))) (Some 1000)) = Some s"
  shows "\<exists>w'. time bo env mem uninit tloc w =
           Some (trunc_toward_zero u, map_option (\<lambda>_. trunc_toward_zero u) tloc, w')
         \<and> Number (clock_offset t1d t2d t3d t4d) \<in> set (serial w')
         \<and> Number (roundtrip_delay t1d t2d t3d t4d) \<in> set (serial w')
         \<and> delay_ms w' = delay_ms w2 + unat (double_to_uint32 s)"
  using assms(7-9) unfolding t1_def t1d_def t2d_def t3d_def t4d_def elapsed_def
  by (simp add: time_def Let_def case_prod_unfold read_millis_def serial_print_def)

lemma time_values_finite:
  fixes bo env reply w w2
  defines "t1 \<equiv> generateTstamp64 bo (word_of_int (ERA_OFFSET0_1_JAN_1970 + 1637244065)) 0"
  defines "t1d \<equiv> dadd (double_of_int (uint (getSeconds64 bo t1))) (Some 0)"
  defines "t2d \<equiv> dadd (double_of_int (uint (getSeconds64 bo (rec reply))))
                    (Some (getFraction64 bo (rec reply)))"
  defines "t3d \<equiv> dadd (double_of_int (uint (getSeconds64 bo (xmt reply))))
                    (Some (getFraction64 bo (xmt reply)))"
  defines "t4d \<equiv> dadd t1d (ddiv (double_of_int
                    (uint (millis env (millis_calls w2) - millis env (millis_calls w)))) 1000)"
  defines "elapsed \<equiv> ddiv (double_of_int (uint (millis env (Suc (Suc (millis_calls w2)))
                                                - millis env (Suc (millis_calls w2))))) 1000"
  shows "\<exists>u s. dadd (dsub (dadd (dadd (Some 1) (clock_offset t1d t2d t3d t4d))
                       (double_of_int (ERA_OFFSET0_1_JAN_1970 + 1637244065)))
                 (double_of_int ERA_OFFSET0_1_JAN_1970)) elapsed = Some u
           \<and> dsub (Some 1000) (dmul (Some (u - of_int (trunc_toward_zero u))) (Some 1000)) = Some s"
proof -
  have nt: "bounded_by 32 (double_of_int (ERA_OFFSET0_1_JAN_1970 + 1637244065))"
    by (rule double_of_int_bounded) (simp_all add: ERA_OFFSET0_1_JAN_1970_def)
  have era: "bounded_by 32 (double_of_int ERA_OFFSET0_1_JAN_1970)"
    by (rule double_of_int_bounded) (simp_all add: ERA_OFFSET0_1_JAN_1970_def)
  have "bounded_by 40
          (dadd (dsub (dadd (dadd (Some 1) (clock_offset t1d t2d t3d t4d))
                       (double_of_int (ERA_OFFSET0_1_JAN_1970 + 1637244065)))
                 (double_of_int ERA_OFFSET0_1_JAN_1970)) elapsed)"
    unfolding t1d_def t2d_def t3d_def t4d_def elapsed_def
    by (intro unix_time_finite double_of_uint32_bounded getFraction64_bounded nt era)
  then obtain u where u: "dadd (dsub (dadd (dadd (Some 1) (clock_offset t1d t2d t3d t4d))
                       (double_of_int (ERA_OFFSET0_1_JAN_1970 + 1637244065)))
                 (double_of_int ERA_OFFSET0_1_JAN_1970)) elapsed = Some u"
    by (rule bounded_byE)
  obtain s where "dsub (Some 1000) (dmul (Some (u - of_int (trunc_toward_zero u))) (Some 1000)) = Some s"
    using sync_delay_finite [of u] by (rule bounded_byE)
  with u show ?thesis by blast
qed

text \<open>
  Claim C10. When \<open>on_wire_exchange\<close> returns \<open>false\<close>, \<open>time\<close> returns \<open>-1\<close> and leaves the
  object behind \<open>tloc\<close> as it was; when it returns \<open>true\<close>, the value returned is also
  the value stored through a non-null \<open>tloc\<close>.
\<close>

theorem time_failure_returns_minus_one:
  assumes "on_wire_exchange env mem
             (Some (uninit\<lparr>xmt := generateTstamp64 bo
                                     (word_of_int (ERA_OFFSET0_1_JAN_1970 + 1637244065)) 0\<rparr>))
             (snd (read_millis env w)) = Some (ok, q, w2)"
  shows "(\<not> ok \<longrightarrow> time bo env mem uninit tloc w = Some (- 1, tloc, lastErrorString w2))
       \<and> (ok \<longrightarrow> (\<exists>v w'. time bo env mem uninit tloc w = Some (v, map_option (\<lambda>_. v) tloc, w')))"
proof (cases ok)
  case False
  with assms show ?thesis by (simp add: time_failed)
next
  case True
  with assms obtain reply where q: "q = Some reply"
    by (auto dest: on_wire_exchange_reply)
  obtain u s where
    "dadd (dsub (dadd (dadd (Some 1)
       (clock_offset
          (dadd (double_of_int (uint (getSeconds64 bo (generateTstamp64 bo
                   (word_of_int (ERA_OFFSET0_1_JAN_1970 + 1637244065)) 0)))) (Some 0))
          (dadd (double_of_int (uint (getSeconds64 bo (rec reply))))
             (Some (getFraction64 bo (rec reply))))
          (dadd (double_of_int (uint (getSeconds64 bo (xmt reply))))
             (Some (getFraction64 bo (xmt reply))))
          (dadd (dadd (double_of_int (uint (getSeconds64 bo (generateTstamp64 bo
                   (word_of_int (ERA_OFFSET0_1_JAN_1970 + 1637244065)) 0)))) (Some 0))
             (ddiv (double_of_int
                    (uint (millis env (millis_calls w2) - millis env (millis_calls w)))) 1000))))
       (double_of_int (ERA_OFFSET0_1_JAN_1970 + 1637244065)))
       (double_of_int ERA_OFFSET0_1_JAN_1970))
       (ddiv (double_of_int (uint (millis env (Suc (Suc (millis_calls w2)))
                                                - millis env (Suc (millis_calls w2))))) 1000) = Some u"
    and "dsub (Some 1000) (dmul (Some (u - of_int (trunc_toward_zero u))) (Some 1000)) = Some s"
    using time_values_finite [where bo = bo and reply = reply and env = env and ?w2.0 = w2
        and w = w] by blast
  moreover from assms True q
  have "on_wire_exchange env mem
             (Some (uninit\<lparr>xmt := generateTstamp64 bo
                                     (word_of_int (ERA_OFFSET0_1_JAN_1970 + 1637244065)) 0\<rparr>))
             (snd (read_millis env w)) = Some (True, Some reply, w2)" by simp
  ultimately show ?thesis
    using True time_succeeded [where env = env and mem = mem and uninit = uninit and bo = bo
        and w = w and reply = reply and ?w2.0 = w2 and u = u and s = s and tloc = tloc] by blast
qed

theorem time_failure_returns_minus_one_witness:
  "time LittleEndian silent_env data_ram_only zeroed_packet (Some 42) fresh_world =
     Some (- 1, Some 42,
           lastErrorString
             (fail_with EPROTONOSUPPORT
                (fresh_world\<lparr>local_port := UDP_LOCAL_PORT,
                   written := [assemble_request (zeroed_packet\<lparr>xmt := generateTstamp64 LittleEndian
                                     (word_of_int (ERA_OFFSET0_1_JAN_1970 + 1637244065)) 0\<rparr>)],
                   packets_ended := 1, polls := 1024, delay_ms := 1024, millis_calls := 1\<rparr>)))"
proof -
  have "local_port (snd (read_millis silent_env fresh_world)) = 0"
    by (simp add: read_millis_def fresh_world_def)
  from on_wire_exchange_silent_env [OF this]
  have "on_wire_exchange silent_env data_ram_only
             (Some (zeroed_packet\<lparr>xmt := generateTstamp64 LittleEndian
                                     (word_of_int (ERA_OFFSET0_1_JAN_1970 + 1637244065)) 0\<rparr>))
             (snd (read_millis silent_env fresh_world))
        = Some (False, Some (assemble_request (zeroed_packet\<lparr>xmt := generateTstamp64 LittleEndian
                                     (word_of_int (ERA_OFFSET0_1_JAN_1970 + 1637244065)) 0\<rparr>)),
                fail_with EPROTONOSUPPORT
                (fresh_world\<lparr>local_port := UDP_LOCAL_PORT,
                   written := [assemble_request (zeroed_packet\<lparr>xmt := generateTstamp64 LittleEndian
                                     (word_of_int (ERA_OFFSET0_1_JAN_1970 + 1637244065)) 0\<rparr>)],
                   packets_ended := 1, polls := 1024, delay_ms := 1024, millis_calls := 1\<rparr>))"
    by (simp add: read_millis_def fresh_world_def fail_with_def)
  from time_failure_returns_minus_one [OF this, where tloc = "Some 42"]
  show ?thesis by simp
qed

subsection \<open>Offset and delay\<close>









end
